theory Spec2Isabelle
  imports Complex_Main "HOL-Library.Sublist"
begin

section \<open>Data model (src/types/index.ts)\<close>

text \<open>
  A JavaScript \<open>Date\<close> holds a time value in milliseconds since the epoch, or NaN
  (an "Invalid Date").  Every date field of a task is built by \<open>new Date(...)\<close> or
  \<open>Timestamp.toDate()\<close>, so it is a \<open>Date\<close> object; only its time value may be NaN.
\<close>

datatype date = Date int | InvalidDate

type_synonym TaskStatus = string

record Task =
  id' :: string
  projectId :: string
  title :: string
  description :: "string option"
  startDate :: date
  endDate :: date
  completed :: bool
  createdAt :: date
  updatedAt :: date
  notes' :: "string option"
  status :: "TaskStatus option"

record KanbanColumn =
  col_id :: string
  col_title :: string
  col_color :: "string option"
  col_status :: TaskStatus

datatype ViewType = daily | weekly | monthly | kanban

section \<open>The store (src/store/useStore.ts)\<close>

text \<open>
  The part of the zustand store the timeline and the board read and write.
  \<open>timelineZoom\<close> is a JavaScript number; the slider moves it in steps of 25 and the
  model keeps it as an integer.  \<open>localStorage\<close> is a map from keys to strings.
\<close>

record AppState =
  tasks :: "Task list"
  currentView :: ViewType
  isSidebarCollapsed :: bool
  timelineZoom :: int

type_synonym Storage = "string \<rightharpoonup> string"

definition setTasks :: "Task list \<Rightarrow> AppState \<Rightarrow> AppState" where
  "setTasks ts st = st\<lparr>tasks := ts\<rparr>"

definition addTask :: "Task \<Rightarrow> AppState \<Rightarrow> AppState" where
  "addTask task st = st\<lparr>tasks := tasks st @ [task]\<rparr>"

definition updateTask :: "Task \<Rightarrow> AppState \<Rightarrow> AppState" where
  "updateTask task st = st\<lparr>tasks := map (\<lambda>t. if id' t = id' task then task else t) (tasks st)\<rparr>"

definition deleteTask :: "string \<Rightarrow> AppState \<Rightarrow> AppState" where
  "deleteTask taskId st = st\<lparr>tasks := filter (\<lambda>t. id' t \<noteq> taskId) (tasks st)\<rparr>"

definition setCurrentView :: "ViewType \<Rightarrow> AppState \<Rightarrow> AppState" where
  "setCurrentView v st = st\<lparr>currentView := v\<rparr>"

subsection \<open>Writing numbers as text\<close>

text \<open>
  \<open>JSON.stringify\<close> of an integer, and an integer inside a template literal, is its
  decimal numeral with a leading minus sign when negative.
\<close>

definition digit :: "nat \<Rightarrow> char" where
  "digit n = ''0123456789'' ! n"

function string_of_nat :: "nat \<Rightarrow> string" where
  "string_of_nat n = (if n < 10 then [digit n] else string_of_nat (n div 10) @ [digit (n mod 10)])"
  by pat_completeness auto
termination
  by (relation "measure (\<lambda>n. n)") auto

declare string_of_nat.simps [simp del]

definition decimal :: "int \<Rightarrow> string" where
  "decimal i = (if i < 0 then CHR ''-'' # string_of_nat (nat (- i)) else string_of_nat (nat i))"

definition JSON_stringify :: "int \<Rightarrow> string" where
  "JSON_stringify i = decimal i"

subsection \<open>Zoom\<close>

text \<open>
  \<open>setTimelineZoom\<close> clamps, stores the clamped value and then persists it under the
  key \<open>timelineZoom\<close>.
\<close>

definition setTimelineZoom :: "int \<Rightarrow> AppState \<times> Storage \<Rightarrow> AppState \<times> Storage" where
  "setTimelineZoom zoom w =
     (let clampedZoom = max 50 (min 200 zoom)
      in ((fst w)\<lparr>timelineZoom := clampedZoom\<rparr>,
          (snd w)(''timelineZoom'' \<mapsto> JSON_stringify clampedZoom)))"

text \<open>The three buttons of src/components/TimelineZoomSlider.tsx.\<close>

definition handleZoomIn :: "AppState \<times> Storage \<Rightarrow> AppState \<times> Storage" where
  "handleZoomIn w = setTimelineZoom (min 200 (timelineZoom (fst w) + 25)) w"

definition handleZoomOut :: "AppState \<times> Storage \<Rightarrow> AppState \<times> Storage" where
  "handleZoomOut w = setTimelineZoom (max 50 (timelineZoom (fst w) - 25)) w"

definition handleReset :: "AppState \<times> Storage \<Rightarrow> AppState \<times> Storage" where
  "handleReset w = setTimelineZoom 100 w"

section \<open>Dates: the date-fns functions the timeline calls\<close>

text \<open>
  date-fns works in the local time zone.  The model takes the local zone to be UTC, with
  no daylight saving: a calendar day is a block of 86400000 ms starting at a multiple of
  86400000, and the epoch day 1970-01-01 is a Thursday.  An Invalid Date is passed on
  as an Invalid Date; the interval functions raise a \<open>RangeError\<close> on an Invalid Date
  and on an interval whose start is after its end (later releases of the library return
  a reversed or empty list there; the layout never reaches that case).
\<close>

datatype js_error = RangeError | SyntaxError

definition isValidDate :: "date \<Rightarrow> bool" where
  "isValidDate d = (case d of Date t \<Rightarrow> True | InvalidDate \<Rightarrow> False)"

text \<open>Relational operators on dates compare the time values; with NaN they are false.\<close>

definition date_ge :: "date \<Rightarrow> date \<Rightarrow> bool" where
  "date_ge a b = (case (a, b) of (Date x, Date y) \<Rightarrow> x \<ge> y | _ \<Rightarrow> False)"

definition date_le :: "date \<Rightarrow> date \<Rightarrow> bool" where
  "date_le a b = (case (a, b) of (Date x, Date y) \<Rightarrow> x \<le> y | _ \<Rightarrow> False)"

definition onTime :: "(int \<Rightarrow> int) \<Rightarrow> date \<Rightarrow> date" where
  "onTime f d = (case d of Date t \<Rightarrow> Date (f t) | InvalidDate \<Rightarrow> InvalidDate)"

definition MS_PER_DAY :: int where
  "MS_PER_DAY = 86400000"

definition dayNumber :: "int \<Rightarrow> int" where
  "dayNumber t = t div MS_PER_DAY"

definition startOfDay_ms :: "int \<Rightarrow> int" where
  "startOfDay_ms t = dayNumber t * MS_PER_DAY"

text \<open>
  \<open>differenceInDays\<close>: the number of full days between two instants, truncated towards
  zero; NaN (here \<open>None\<close>) when either date is invalid.
\<close>

definition differenceInDays_ms :: "int \<Rightarrow> int \<Rightarrow> int" where
  "differenceInDays_ms later earlier =
     (if earlier \<le> later then (later - earlier) div MS_PER_DAY
      else - ((earlier - later) div MS_PER_DAY))"

definition differenceInDays :: "date \<Rightarrow> date \<Rightarrow> int option" where
  "differenceInDays later earlier =
     (case (later, earlier) of
        (Date a, Date b) \<Rightarrow> Some (differenceInDays_ms a b)
      | _ \<Rightarrow> None)"

text \<open>\<open>eachDayOfInterval\<close>: the start of every day from the day of \<open>start\<close> up to \<open>end\<close>.\<close>

definition eachDayOfInterval :: "date \<Rightarrow> date \<Rightarrow> js_error + date list" where
  "eachDayOfInterval start end' =
     (case (start, end') of
        (Date s, Date e) \<Rightarrow>
          if e < s then Inl RangeError
          else Inr (map (\<lambda>k. Date (startOfDay_ms s + int k * MS_PER_DAY))
                        [0 ..< nat (dayNumber e - dayNumber s + 1)])
      | _ \<Rightarrow> Inl RangeError)"

subsection \<open>Weeks (starting on Sunday)\<close>

definition getDay :: "int \<Rightarrow> int" where
  "getDay t = (dayNumber t + 4) mod 7"

definition startOfWeek_ms :: "int \<Rightarrow> int" where
  "startOfWeek_ms t = startOfDay_ms t - getDay t * MS_PER_DAY"

definition endOfWeek_ms :: "int \<Rightarrow> int" where
  "endOfWeek_ms t = startOfWeek_ms t + 7 * MS_PER_DAY - 1"

definition startOfWeek :: "date \<Rightarrow> date" where
  "startOfWeek = onTime startOfWeek_ms"

definition endOfWeek :: "date \<Rightarrow> date" where
  "endOfWeek = onTime endOfWeek_ms"

definition eachWeekOfInterval :: "date \<Rightarrow> date \<Rightarrow> js_error + date list" where
  "eachWeekOfInterval start end' =
     (case (start, end') of
        (Date s, Date e) \<Rightarrow>
          if e < s then Inl RangeError
          else Inr (map (\<lambda>k. Date (startOfWeek_ms s + int k * (7 * MS_PER_DAY)))
                        [0 ..< nat ((startOfWeek_ms e - startOfWeek_ms s) div (7 * MS_PER_DAY) + 1)])
      | _ \<Rightarrow> Inl RangeError)"

subsection \<open>Months (proleptic Gregorian calendar)\<close>

definition isLeapYear :: "int \<Rightarrow> bool" where
  "isLeapYear y = (if y mod 400 = 0 then True else if y mod 100 = 0 then False else y mod 4 = 0)"

text \<open>Month \<open>k\<close> counts months from January 1970 (month 0); its number of days.\<close>

definition monthLength :: "int \<Rightarrow> int" where
  "monthLength k =
     (let y = 1970 + k div 12; m = k mod 12
      in if m = 1 then (if isLeapYear y then 29 else 28)
         else if m = 3 \<or> m = 5 \<or> m = 8 \<or> m = 10 then 30
         else 31)"

lemma monthLength_pos: "28 \<le> monthLength k"
  by (simp add: monthLength_def Let_def)

text \<open>
  The first and the last day number of the month that holds day \<open>z\<close>, found by walking
  month by month from January 1970: forwards when \<open>first \<le> z\<close> (\<open>first\<close> is the first
  day of month \<open>k\<close>), backwards when \<open>z < first\<close>.
\<close>

function monthForward :: "int \<Rightarrow> int \<Rightarrow> int \<Rightarrow> int \<times> int" where
  "monthForward k first z =
     (if z < first + monthLength k then (first, first + monthLength k - 1)
      else monthForward (k + 1) (first + monthLength k) z)"
  by pat_completeness auto
termination
proof (relation "measure (\<lambda>(k, first, z). nat (z - first))")
  show "wf (measure (\<lambda>(k, first, z). nat (z - first)))" by simp
next
  fix k first z :: int
  assume "\<not> z < first + monthLength k"
  then show "((k + 1, first + monthLength k, z), (k, first, z)) \<in> measure (\<lambda>(k, first, z). nat (z - first))"
    using monthLength_pos [of k] by simp
qed

function monthBackward :: "int \<Rightarrow> int \<Rightarrow> int \<Rightarrow> int \<times> int" where
  "monthBackward k first z =
     (if first - monthLength (k - 1) \<le> z then (first - monthLength (k - 1), first - 1)
      else monthBackward (k - 1) (first - monthLength (k - 1)) z)"
  by pat_completeness auto
termination
proof (relation "measure (\<lambda>(k, first, z). nat (first - z))")
  show "wf (measure (\<lambda>(k, first, z). nat (first - z)))" by simp
next
  fix k first z :: int
  assume "\<not> first - monthLength (k - 1) \<le> z"
  then show "((k - 1, first - monthLength (k - 1), z), (k, first, z)) \<in> measure (\<lambda>(k, first, z). nat (first - z))"
    using monthLength_pos [of "k - 1"] by simp
qed

declare monthForward.simps [simp del] monthBackward.simps [simp del]

definition monthOfDay :: "int \<Rightarrow> int \<times> int" where
  "monthOfDay z = (if 0 \<le> z then monthForward 0 0 z else monthBackward 0 0 z)"

definition startOfMonth_ms :: "int \<Rightarrow> int" where
  "startOfMonth_ms t = fst (monthOfDay (dayNumber t)) * MS_PER_DAY"

definition endOfMonth_ms :: "int \<Rightarrow> int" where
  "endOfMonth_ms t = snd (monthOfDay (dayNumber t)) * MS_PER_DAY + MS_PER_DAY - 1"

definition startOfMonth :: "date \<Rightarrow> date" where
  "startOfMonth = onTime startOfMonth_ms"

definition endOfMonth :: "date \<Rightarrow> date" where
  "endOfMonth = onTime endOfMonth_ms"

lemma monthForward_bounds:
  "first \<le> z \<Longrightarrow> fst (monthForward k first z) \<le> z \<and> z \<le> snd (monthForward k first z)"
proof (induction k first z rule: monthForward.induct)
  case (1 k first z)
  show ?case
  proof (cases "z < first + monthLength k")
    case True
    with "1.prems" show ?thesis by (simp add: monthForward.simps [of k first z])
  next
    case False
    with "1.IH" show ?thesis by (simp add: monthForward.simps [of k first z])
  qed
qed

lemma monthBackward_bounds:
  "z < first \<Longrightarrow> fst (monthBackward k first z) \<le> z \<and> z \<le> snd (monthBackward k first z)"
proof (induction k first z rule: monthBackward.induct)
  case (1 k first z)
  show ?case
  proof (cases "first - monthLength (k - 1) \<le> z")
    case True
    with "1.prems" show ?thesis by (simp add: monthBackward.simps [of k first z])
  next
    case False
    with "1.IH" show ?thesis by (simp add: monthBackward.simps [of k first z])
  qed
qed

lemma monthOfDay_bounds: "fst (monthOfDay z) \<le> z \<and> z \<le> snd (monthOfDay z)"
  using monthForward_bounds [of 0 z 0] monthBackward_bounds [of z 0 0]
  by (simp add: monthOfDay_def)

lemma startOfDay_ms_le: "startOfDay_ms t \<le> t"
  by (simp add: startOfDay_ms_def dayNumber_def MS_PER_DAY_def)

lemma startOfMonth_ms_le: "startOfMonth_ms t \<le> t"
proof -
  have "fst (monthOfDay (dayNumber t)) * MS_PER_DAY \<le> dayNumber t * MS_PER_DAY"
    using monthOfDay_bounds [of "dayNumber t"] by (simp add: MS_PER_DAY_def)
  also have "\<dots> \<le> t"
    by (simp add: dayNumber_def MS_PER_DAY_def)
  finally show ?thesis by (simp add: startOfMonth_ms_def)
qed

lemma endOfMonth_ms_ge: "t \<le> endOfMonth_ms t"
proof -
  have "t < dayNumber t * MS_PER_DAY + MS_PER_DAY"
    using pos_mod_bound [of MS_PER_DAY t] div_mult_mod_eq [of t MS_PER_DAY]
    by (simp add: dayNumber_def MS_PER_DAY_def)
  moreover have "dayNumber t * MS_PER_DAY \<le> snd (monthOfDay (dayNumber t)) * MS_PER_DAY"
    using monthOfDay_bounds [of "dayNumber t"] by (simp add: MS_PER_DAY_def)
  ultimately show ?thesis by (simp add: endOfMonth_ms_def)
qed

text \<open>
  \<open>eachMonthOfInterval\<close>: the start of every month from the month of \<open>start\<close> while it
  is not after \<open>end\<close>.
\<close>

function monthsUpTo :: "int \<Rightarrow> int \<Rightarrow> date list" where
  "monthsUpTo cur e = (if cur \<le> e then Date cur # monthsUpTo (endOfMonth_ms cur + 1) e else [])"
  by pat_completeness auto
termination
proof (relation "measure (\<lambda>(cur, e). nat (e - cur + 1))")
  show "wf (measure (\<lambda>(cur, e). nat (e - cur + 1)))" by simp
next
  fix cur e :: int
  assume "cur \<le> e"
  then show "((endOfMonth_ms cur + 1, e), (cur, e)) \<in> measure (\<lambda>(cur, e). nat (e - cur + 1))"
    using endOfMonth_ms_ge [of cur] by simp
qed

declare monthsUpTo.simps [simp del]

definition eachMonthOfInterval :: "date \<Rightarrow> date \<Rightarrow> js_error + date list" where
  "eachMonthOfInterval start end' =
     (case (start, end') of
        (Date s, Date e) \<Rightarrow>
          if e < s then Inl RangeError else Inr (monthsUpTo (startOfMonth_ms s) e)
      | _ \<Rightarrow> Inl RangeError)"

section \<open>The timeline layout (components/Timeline.tsx and components/ReadOnlyTimeline.tsx)\<close>

subsection \<open>\<open>timelineData\<close>: valid tasks, date range and periods\<close>

record TimelineData =
  periods :: "date list"
  tasks_td :: "Task list"
  periodFormat :: string
  startDate_td :: "date option"
  endDate_td :: "date option"

text \<open>
  \<open>new Date(Math.min(...allDates.map(d => d.getTime())))\<close>: NaN if one of the time
  values is NaN, and \<open>Math.min()\<close> of no argument is Infinity, which is no valid time
  value either.
\<close>

fun getTimes :: "date list \<Rightarrow> int list option" where
  "getTimes [] = Some []"
| "getTimes (Date t # ds) = map_option ((#) t) (getTimes ds)"
| "getTimes (InvalidDate # ds) = None"

definition minDateOf :: "date list \<Rightarrow> date" where
  "minDateOf allDates = (case getTimes allDates of Some (t # ts) \<Rightarrow> Date (fold min ts t) | _ \<Rightarrow> InvalidDate)"

definition maxDateOf :: "date list \<Rightarrow> date" where
  "maxDateOf allDates = (case getTimes allDates of Some (t # ts) \<Rightarrow> Date (fold max ts t) | _ \<Rightarrow> InvalidDate)"

text \<open>
  Both components compute \<open>timelineData\<close> with the same code.  The \<open>switch\<close> has no
  case for the kanban view, which leaves the period list empty.
\<close>

definition validDates :: "Task \<Rightarrow> bool" where
  "validDates t = (isValidDate (startDate t) \<and> isValidDate (endDate t))"

definition allDatesOf :: "Task list \<Rightarrow> date list" where
  "allDatesOf validTasks = concat (map (\<lambda>task. [startDate task, endDate task]) validTasks)"

definition timelineData :: "Task list \<Rightarrow> ViewType \<Rightarrow> js_error + TimelineData" where
  "timelineData ts view =
     (let validTasks = filter validDates ts
      in if validTasks = []
         then Inr \<lparr>periods = [], tasks_td = [], periodFormat = [], startDate_td = None, endDate_td = None\<rparr>
         else
           let allDates = allDatesOf validTasks;
               minDate = minDateOf allDates;
               maxDate = maxDateOf allDates
           in case view of
                daily \<Rightarrow>
                  (case eachDayOfInterval minDate maxDate of
                     Inl err \<Rightarrow> Inl err
                   | Inr ps \<Rightarrow> Inr \<lparr>periods = ps, tasks_td = validTasks, periodFormat = ''MMM dd'',
                                   startDate_td = Some minDate, endDate_td = Some maxDate\<rparr>)
              | weekly \<Rightarrow>
                  (case eachWeekOfInterval (startOfWeek minDate) (endOfWeek maxDate) of
                     Inl err \<Rightarrow> Inl err
                   | Inr ps \<Rightarrow> Inr \<lparr>periods = ps, tasks_td = validTasks, periodFormat = ''MMM dd'',
                                   startDate_td = Some (startOfWeek minDate),
                                   endDate_td = Some (endOfWeek maxDate)\<rparr>)
              | monthly \<Rightarrow>
                  (case eachMonthOfInterval (startOfMonth minDate) (endOfMonth maxDate) of
                     Inl err \<Rightarrow> Inl err
                   | Inr ps \<Rightarrow> Inr \<lparr>periods = ps, tasks_td = validTasks, periodFormat = ''MMM yyyy'',
                                   startDate_td = Some (startOfMonth minDate),
                                   endDate_td = Some (endOfMonth maxDate)\<rparr>)
              | kanban \<Rightarrow>
                  Inr \<lparr>periods = [], tasks_td = validTasks, periodFormat = [],
                       startDate_td = Some minDate, endDate_td = Some maxDate\<rparr>)"

subsection \<open>Double-precision arithmetic\<close>

text \<open>
  A JavaScript number is an IEEE 754 double: 53 significant binary digits, a result
  rounded to the nearest double with ties to the even one.  Integers below \<open>2 ^ 53\<close> in
  magnitude are doubles, so the day and index arithmetic is exact; a quotient and a
  product are rounded.  Overflow to Infinity is left out: every quotient taken here is at
  most a number of days or periods and every product 100 times that.
\<close>

text \<open>
  The exponent of a positive number: how often a number of at least 1 is halved until
  it is below 2, and how often a positive number below 1 is doubled until it is at
  least 1.
\<close>

function halvings :: "real \<Rightarrow> nat" where
  "halvings x = (if x < 2 then 0 else Suc (halvings (x / 2)))"
  by pat_completeness auto
termination
proof (relation "measure (\<lambda>x. nat \<lfloor>x\<rfloor>)")
  show "wf (measure (\<lambda>x::real. nat \<lfloor>x\<rfloor>))" by simp
next
  fix x :: real
  assume "\<not> x < 2"
  then have "2 \<le> x" by simp
  then have "\<lfloor>x / 2\<rfloor> < \<lfloor>x\<rfloor>" and "0 < \<lfloor>x\<rfloor>"
    by linarith+
  then show "(x / 2, x) \<in> measure (\<lambda>x. nat \<lfloor>x\<rfloor>)" by simp
qed

function doublings :: "real \<Rightarrow> nat" where
  "doublings x = (if x \<le> 0 \<or> 1 \<le> x then 0 else Suc (doublings (2 * x)))"
  by pat_completeness auto
termination
proof (relation "measure (\<lambda>x. nat \<lfloor>1 / x\<rfloor>)")
  show "wf (measure (\<lambda>x::real. nat \<lfloor>1 / x\<rfloor>))" by simp
next
  fix x :: real
  assume "\<not> (x \<le> 0 \<or> 1 \<le> x)"
  then have x: "0 < x" "x < 1" by simp_all
  then have y: "1 < 1 / x" by simp
  have half: "\<lfloor>y / 2\<rfloor> < \<lfloor>y\<rfloor> \<and> 0 < \<lfloor>y\<rfloor>" if "1 < y" for y :: real
  proof (cases "y < 2")
    case True
    then have "\<lfloor>y / 2\<rfloor> \<le> 0" by linarith
    moreover have "0 < \<lfloor>y\<rfloor>" using that by linarith
    ultimately show ?thesis by linarith
  next
    case False
    then have "2 \<le> y" by simp
    then have "\<lfloor>y / 2\<rfloor> < \<lfloor>y\<rfloor>" and "0 < \<lfloor>y\<rfloor>" by linarith+
    then show ?thesis by (rule conjI)
  qed
  have e: "1 / (2 * x) = (1 / x) / 2" by simp
  have "\<lfloor>1 / (2 * x)\<rfloor> < \<lfloor>1 / x\<rfloor>" and "0 < \<lfloor>1 / x\<rfloor>"
    unfolding e using half [OF y] by blast+
  then show "(2 * x, x) \<in> measure (\<lambda>x. nat \<lfloor>1 / x\<rfloor>)" by simp
qed

declare halvings.simps [simp del] doublings.simps [simp del]

text \<open>
  The unit in the last place of a double of that size: 52 binary digits below the
  leading one, and no finer than that of the smallest normal number.
\<close>

definition ulp :: "real \<Rightarrow> real" where
  "ulp x = (if 1 \<le> x then 2 ^ halvings x / 2 ^ 52
            else 1 / (2 ^ min (doublings x) 1022 * 2 ^ 52))"

text \<open>
  Rounding to the nearest integer, a tie going to the even one.
\<close>

definition round_even :: "real \<Rightarrow> int" where
  "round_even y =
     (let f = \<lfloor>y\<rfloor>; r = y - real_of_int f
      in if r < 1 / 2 then f else if 1 / 2 < r then f + 1 else if even f then f else f + 1)"

text \<open>
  The double nearest to a real number, and the division and multiplication of
  doubles, which round their exact result.
\<close>

definition fl :: "real \<Rightarrow> real" where
  "fl x = (if x = 0 then 0 else sgn x * real_of_int (round_even (\<bar>x\<bar> / ulp \<bar>x\<bar>)) * ulp \<bar>x\<bar>)"

definition fdiv :: "real \<Rightarrow> real \<Rightarrow> real" where
  "fdiv a b = fl (a / b)"

definition fmul :: "real \<Rightarrow> real \<Rightarrow> real" where
  "fmul a b = fl (a * b)"

subsection \<open>\<open>getTaskPosition\<close>\<close>

text \<open>\<open>Array.prototype.findIndex\<close>: the first index whose element satisfies \<open>P\<close>, or -1.\<close>

fun findIndex :: "('a \<Rightarrow> bool) \<Rightarrow> 'a list \<Rightarrow> int" where
  "findIndex P [] = - 1"
| "findIndex P (x # xs) = (if P x then 0 else (let i = findIndex P xs in if i < 0 then - 1 else i + 1))"

text \<open>
  The weekly and the monthly branch of both components run the same index search, once
  with \<open>endOfWeek\<close> and once with \<open>endOfMonth\<close>: a period matches a date when
  \<open>date >= period && date <= endOf(period)\<close>.
\<close>

definition inPeriod :: "(date \<Rightarrow> date) \<Rightarrow> date \<Rightarrow> date \<Rightarrow> bool" where
  "inPeriod endOf d period = (date_ge d period \<and> date_le d (endOf period))"

definition startIndex :: "(date \<Rightarrow> date) \<Rightarrow> Task \<Rightarrow> date list \<Rightarrow> int" where
  "startIndex endOf task ps =
     (let taskStart = findIndex (inPeriod endOf (startDate task)) ps
      in max 0 (if taskStart \<ge> 0 then taskStart else 0))"

definition endIndex :: "(date \<Rightarrow> date) \<Rightarrow> Task \<Rightarrow> date list \<Rightarrow> int" where
  "endIndex endOf task ps =
     (let total = int (length ps);
          taskEnd = findIndex (inPeriod endOf (endDate task)) ps;
          start = startIndex endOf task ps
      in min (total - 1) (max (if taskEnd \<ge> 0 then taskEnd else start) start))"

text \<open>
  The day arithmetic of the daily branch, the same in both components:
  \<open>(totalDays, taskStartDays, taskDuration)\<close>, or \<open>None\<close> when a date is invalid and
  the numbers are NaN.
\<close>

definition dailySpan :: "date \<Rightarrow> date \<Rightarrow> Task \<Rightarrow> (int \<times> int \<times> int) option" where
  "dailySpan start end' task =
     (case (differenceInDays end' start, differenceInDays (startDate task) start,
            differenceInDays (endDate task) start) of
        (Some dTotal, Some dStart, Some dEnd) \<Rightarrow>
          (let totalDays = dTotal + 1;
               taskStartDays = max 0 dStart;
               taskEndDays = min (totalDays - 1) dEnd;
               taskDuration = max 1 (taskEndDays - taskStartDays + 1)
           in Some (totalDays, taskStartDays, taskDuration))
      | _ \<Rightarrow> None)"

record Position =
  left :: real
  width :: real

text \<open>
  The editable timeline: \<open>left\<close> and \<open>width\<close> are percentages of the whole span.
  \<open>None\<close> stands for a result that is not a finite number (NaN from an invalid date,
  or a division by a zero \<open>totalDays\<close>).  The final \<open>else\<close> serves the daily and
  the kanban view.  The function is given twice.  \<open>getTaskPosition\<close> takes the quotient
  and the product exactly, as real numbers; \<open>getTaskPosition_f64\<close> rounds both to double
  precision, as the program does.  The indices and day counts are the same in both; the
  percentages differ wherever a quotient is not a double, as for 5 days of 6.
\<close>

definition getTaskPosition :: "ViewType \<Rightarrow> TimelineData \<Rightarrow> Task \<Rightarrow> date list \<Rightarrow> Position option" where
  "getTaskPosition view td task ps =
     (case (ps, startDate_td td, endDate_td td) of
        (_ # _, Some start, Some end') \<Rightarrow>
          if view = weekly then
            (let totalWeeks = int (length ps);
                 startWeek = startIndex endOfWeek task ps;
                 endWeek = endIndex endOfWeek task ps
             in Some \<lparr>left = (real_of_int startWeek / real_of_int totalWeeks) * 100,
                      width = (real_of_int (endWeek - startWeek + 1) / real_of_int totalWeeks) * 100\<rparr>)
          else if view = monthly then
            (let totalMonths = int (length ps);
                 startMonth = startIndex endOfMonth task ps;
                 endMonth = endIndex endOfMonth task ps
             in Some \<lparr>left = (real_of_int startMonth / real_of_int totalMonths) * 100,
                      width = (real_of_int (endMonth - startMonth + 1) / real_of_int totalMonths) * 100\<rparr>)
          else
            (case dailySpan start end' task of
               None \<Rightarrow> None
             | Some (totalDays, taskStartDays, taskDuration) \<Rightarrow>
                 if totalDays = 0 then None
                 else Some \<lparr>left = max 0 ((real_of_int taskStartDays / real_of_int totalDays) * 100),
                           width = max 1 ((real_of_int taskDuration / real_of_int totalDays) * 100)\<rparr>)
      | _ \<Rightarrow> Some \<lparr>left = 0, width = 0\<rparr>)"

definition getTaskPosition_f64 :: "ViewType \<Rightarrow> TimelineData \<Rightarrow> Task \<Rightarrow> date list \<Rightarrow> Position option" where
  "getTaskPosition_f64 view td task ps =
     (case (ps, startDate_td td, endDate_td td) of
        (_ # _, Some start, Some end') \<Rightarrow>
          if view = weekly then
            (let totalWeeks = int (length ps);
                 startWeek = startIndex endOfWeek task ps;
                 endWeek = endIndex endOfWeek task ps
             in Some \<lparr>left = fmul (fdiv (real_of_int startWeek) (real_of_int totalWeeks)) 100,
                      width = fmul (fdiv (real_of_int (endWeek - startWeek + 1)) (real_of_int totalWeeks)) 100\<rparr>)
          else if view = monthly then
            (let totalMonths = int (length ps);
                 startMonth = startIndex endOfMonth task ps;
                 endMonth = endIndex endOfMonth task ps
             in Some \<lparr>left = fmul (fdiv (real_of_int startMonth) (real_of_int totalMonths)) 100,
                      width = fmul (fdiv (real_of_int (endMonth - startMonth + 1)) (real_of_int totalMonths)) 100\<rparr>)
          else
            (case dailySpan start end' task of
               None \<Rightarrow> None
             | Some (totalDays, taskStartDays, taskDuration) \<Rightarrow>
                 if totalDays = 0 then None
                 else Some \<lparr>left = max 0 (fmul (fdiv (real_of_int taskStartDays) (real_of_int totalDays)) 100),
                           width = max 1 (fmul (fdiv (real_of_int taskDuration) (real_of_int totalDays)) 100)\<rparr>)
      | _ \<Rightarrow> Some \<lparr>left = 0, width = 0\<rparr>)"

text \<open>The read-only timeline: \<open>left\<close> and \<open>width\<close> are pixels, multiples of the column width.\<close>

definition getTaskPosition_ro :: "ViewType \<Rightarrow> TimelineData \<Rightarrow> Task \<Rightarrow> date list \<Rightarrow> real \<Rightarrow> Position option" where
  "getTaskPosition_ro view td task ps columnWidth =
     (case (ps, startDate_td td, endDate_td td) of
        (_ # _, Some start, Some end') \<Rightarrow>
          if view = weekly then
            (let startWeek = startIndex endOfWeek task ps;
                 endWeek = endIndex endOfWeek task ps
             in Some \<lparr>left = real_of_int startWeek * columnWidth,
                      width = real_of_int (endWeek - startWeek + 1) * columnWidth\<rparr>)
          else if view = monthly then
            (let startMonth = startIndex endOfMonth task ps;
                 endMonth = endIndex endOfMonth task ps
             in Some \<lparr>left = real_of_int startMonth * columnWidth,
                      width = real_of_int (endMonth - startMonth + 1) * columnWidth\<rparr>)
          else
            (case dailySpan start end' task of
               None \<Rightarrow> None
             | Some (totalDays, taskStartDays, taskDuration) \<Rightarrow>
                 Some \<lparr>left = max 0 (real_of_int taskStartDays * columnWidth),
                      width = max columnWidth (real_of_int taskDuration * columnWidth)\<rparr>)
      | _ \<Rightarrow> Some \<lparr>left = 0, width = 0\<rparr>)"

subsection \<open>Column width and the style of a task bar\<close>

definition Math_round :: "real \<Rightarrow> int" where
  "Math_round x = \<lfloor>x + 1 / 2\<rfloor>"

definition getColumnWidth :: "ViewType \<Rightarrow> int \<Rightarrow> int" where
  "getColumnWidth view zoom =
     (let baseWidth = (if view = daily then 100 else if view = weekly then 120 else 150)
      in Math_round (baseWidth * (real_of_int zoom / 100)))"

record BarStyle =
  left_px :: real
  width_px :: real

definition barStyle :: "nat \<Rightarrow> int \<Rightarrow> Position \<Rightarrow> BarStyle" where
  "barStyle n columnWidth position =
     \<lparr>left_px = (left position / 100) * (real n * real_of_int columnWidth),
      width_px = max ((width position / 100) * (real n * real_of_int columnWidth)) 40\<rparr>"

definition barStyle_ro :: "Position \<Rightarrow> BarStyle" where
  "barStyle_ro position = \<lparr>left_px = left position, width_px = max (width position) 40\<rparr>"

text \<open>
  What each component draws: nothing but the empty state when there is no period,
  otherwise one bar per task of \<open>timelineData.tasks\<close>, in order.
\<close>

definition Timeline_bars :: "Task list \<Rightarrow> ViewType \<Rightarrow> int \<Rightarrow> js_error + (Task \<times> BarStyle option) list" where
  "Timeline_bars ts view zoom =
     (case timelineData ts view of
        Inl err \<Rightarrow> Inl err
      | Inr td \<Rightarrow>
          if periods td = [] then Inr []
          else (let columnWidth = getColumnWidth view zoom
                in Inr (map (\<lambda>task. (task, map_option (barStyle (length (periods td)) columnWidth)
                                               (getTaskPosition view td task (periods td))))
                            (tasks_td td))))"

definition ReadOnlyTimeline_bars :: "Task list \<Rightarrow> ViewType \<Rightarrow> int \<Rightarrow> js_error + (Task \<times> BarStyle option) list" where
  "ReadOnlyTimeline_bars ts view zoom =
     (case timelineData ts view of
        Inl err \<Rightarrow> Inl err
      | Inr td \<Rightarrow>
          if periods td = [] then Inr []
          else (let columnWidth = getColumnWidth view zoom
                in Inr (map (\<lambda>task. (task, map_option barStyle_ro
                                               (getTaskPosition_ro view td task (periods td) (real_of_int columnWidth))))
                            (tasks_td td))))"

section \<open>Persisted view state (src/store/useStore.ts)\<close>

text \<open>
  The values \<open>JSON.parse\<close> can return.  Numbers are taken as real numbers.
\<close>

datatype json = JNull | JBool bool | JNumber real | JString string
  | JArray "json list" | JObject "(string \<times> json) list"

text \<open>
  Both initialisers read a key, and parse what they find inside a \<open>try\<close> block whose
  \<open>catch\<close> returns the default.  An absent key (\<open>null\<close>) and the empty string are falsy
  and give the default without parsing.  The parser is the platform's; the initialisers
  take it as a parameter \<open>parse\<close> that returns a value or raises (\<open>Inl\<close>).
\<close>

definition initializeSidebarState :: "(string \<Rightarrow> js_error + json) \<Rightarrow> Storage \<Rightarrow> json" where
  "initializeSidebarState parse localStorage =
     (case localStorage ''sidebarCollapsed'' of
        None \<Rightarrow> JBool False
      | Some saved \<Rightarrow>
          if saved = [] then JBool False
          else (case parse saved of Inl err \<Rightarrow> JBool False | Inr v \<Rightarrow> v))"

definition initializeTimelineZoom :: "(string \<Rightarrow> js_error + json) \<Rightarrow> Storage \<Rightarrow> json" where
  "initializeTimelineZoom parse localStorage =
     (case localStorage ''timelineZoom'' of
        None \<Rightarrow> JNumber 100
      | Some saved \<Rightarrow>
          if saved = [] then JNumber 100
          else (case parse saved of Inl err \<Rightarrow> JNumber 100 | Inr v \<Rightarrow> v))"

definition setSidebarCollapsed :: "bool \<Rightarrow> AppState \<times> Storage \<Rightarrow> AppState \<times> Storage" where
  "setSidebarCollapsed collapsed w =
     ((fst w)\<lparr>isSidebarCollapsed := collapsed\<rparr>,
      (snd w)(''sidebarCollapsed'' \<mapsto> (if collapsed then ''true'' else ''false'')))"

text \<open>
  \<open>JSON.parse\<close> on the scalar texts the store itself writes and their like: optional
  JSON white space around one of the literals \<open>true\<close>, \<open>false\<close>, \<open>null\<close> or an integer
  numeral (an optional minus sign, then \<open>0\<close> or digits without a leading zero).  This
  development applies it to such texts only; every other text is reported as a
  \<open>SyntaxError\<close> here, also a fraction, a string, an array or an object that the
  platform's parser would accept.
\<close>

definition isJsonSpace :: "char \<Rightarrow> bool" where
  "isJsonSpace c = (c = CHR '' '' \<or> c = CHR 0x09 \<or> c = CHR 0x0A \<or> c = CHR 0x0D)"

definition isDigit :: "char \<Rightarrow> bool" where
  "isDigit c = (c \<in> set ''0123456789'')"

definition digitValue :: "char \<Rightarrow> int" where
  "digitValue c = int (of_char c) - 48"

definition isNatLiteral :: "string \<Rightarrow> bool" where
  "isNatLiteral ds = (case ds of [] \<Rightarrow> False
                      | d # rest \<Rightarrow> list_all isDigit ds \<and> (if d = CHR ''0'' then rest = [] else True))"

definition natLiteralValue :: "string \<Rightarrow> int" where
  "natLiteralValue ds = foldl (\<lambda>acc c. acc * 10 + digitValue c) 0 ds"

definition JSON_parse :: "string \<Rightarrow> js_error + json" where
  "JSON_parse text =
     (let s = rev (dropWhile isJsonSpace (rev (dropWhile isJsonSpace text)))
      in if s = ''true'' then Inr (JBool True)
         else if s = ''false'' then Inr (JBool False)
         else if s = ''null'' then Inr JNull
         else (case s of
                 c # ds \<Rightarrow>
                   if c = CHR ''-'' \<and> isNatLiteral ds then Inr (JNumber (- real_of_int (natLiteralValue ds)))
                   else if isNatLiteral s then Inr (JNumber (real_of_int (natLiteralValue s)))
                   else Inl SyntaxError
               | [] \<Rightarrow> Inl SyntaxError))"

section \<open>The Kanban board (src/components/KanbanBoard.tsx)\<close>

record KanbanState =
  draggedTask :: "Task option"
  draggedOver :: "TaskStatus option"
  customColumns :: "KanbanColumn list"
  newColumnTitle :: string
  editingColumn :: "string option"

definition initialKanbanState :: KanbanState where
  "initialKanbanState =
     \<lparr>draggedTask = None, draggedOver = None,
      customColumns =
        [\<lparr>col_id = ''todo'', col_title = ''To Do'', col_color = None, col_status = ''todo''\<rparr>,
         \<lparr>col_id = ''in-progress'', col_title = ''In Progress'', col_color = None, col_status = ''in-progress''\<rparr>,
         \<lparr>col_id = ''done'', col_title = ''Done'', col_color = None, col_status = ''done''\<rparr>,
         \<lparr>col_id = ''pending'', col_title = ''Pending'', col_color = None, col_status = ''pending''\<rparr>,
         \<lparr>col_id = ''blocked'', col_title = ''Blocked'', col_color = None, col_status = ''blocked''\<rparr>],
      newColumnTitle = [], editingColumn = None\<rparr>"

text \<open>\<open>task.status || 'todo'\<close>: an absent and an empty status count as \<open>todo\<close>.\<close>

definition statusOrTodo :: "Task \<Rightarrow> TaskStatus" where
  "statusOrTodo task = (case status task of None \<Rightarrow> ''todo'' | Some s \<Rightarrow> if s = [] then ''todo'' else s)"

text \<open>The tasks a column shows.\<close>

definition getTasksByStatus :: "TaskStatus \<Rightarrow> Task list \<Rightarrow> Task list" where
  "getTasksByStatus st ts = filter (\<lambda>task. statusOrTodo task = st) ts"

definition handleDragStart :: "Task \<Rightarrow> KanbanState \<Rightarrow> KanbanState" where
  "handleDragStart task kb = kb\<lparr>draggedTask := Some task\<rparr>"

definition handleDragOver :: "TaskStatus \<Rightarrow> KanbanState \<Rightarrow> KanbanState" where
  "handleDragOver st kb = kb\<lparr>draggedOver := Some st\<rparr>"

definition handleDragLeave :: "KanbanState \<Rightarrow> KanbanState" where
  "handleDragLeave kb = kb\<lparr>draggedOver := None\<rparr>"

text \<open>
  \<open>handleDrop\<close>.  \<open>remoteOk\<close> tells whether the awaited \<open>taskService.updateTask\<close>
  resolved; when it rejects, the \<open>catch\<close> block shows a message and the store is not
  written.
\<close>

definition handleDrop :: "TaskStatus \<Rightarrow> bool \<Rightarrow> KanbanState \<times> AppState \<Rightarrow> KanbanState \<times> AppState" where
  "handleDrop newStatus remoteOk w =
     (let kb = (fst w)\<lparr>draggedOver := None\<rparr>; st = snd w
      in case draggedTask kb of
           None \<Rightarrow> (kb\<lparr>draggedTask := None\<rparr>, st)
         | Some dragged \<Rightarrow>
             if status dragged = Some newStatus then (kb\<lparr>draggedTask := None\<rparr>, st)
             else
               (let completed' = (newStatus = ''done'');
                    updatedTask = dragged\<lparr>status := Some newStatus, completed := completed'\<rparr>
                in if remoteOk then (kb\<lparr>draggedTask := None\<rparr>, updateTask updatedTask st)
                   else (kb\<lparr>draggedTask := None\<rparr>, st)))"

subsection \<open>Managing columns\<close>

text \<open>\<open>String.prototype.trim\<close> on the white space of ASCII.\<close>

definition isWhiteSpace :: "char \<Rightarrow> bool" where
  "isWhiteSpace c = (c = CHR '' '' \<or> c = CHR 0x09 \<or> c = CHR 0x0A \<or> c = CHR 0x0B \<or> c = CHR 0x0C \<or> c = CHR 0x0D)"

definition trim :: "string \<Rightarrow> string" where
  "trim s = rev (dropWhile isWhiteSpace (rev (dropWhile isWhiteSpace s)))"

text \<open>
  \<open>handleAddColumn\<close> reads \<open>Date.now()\<close> twice, once for the id and once for the status
  of the new column.
\<close>

definition handleAddColumn :: "int \<Rightarrow> int \<Rightarrow> KanbanState \<Rightarrow> KanbanState" where
  "handleAddColumn now1 now2 kb =
     (if trim (newColumnTitle kb) = [] then kb
      else kb\<lparr>customColumns := customColumns kb @
                  [\<lparr>col_id = ''custom-'' @ decimal now1, col_title = newColumnTitle kb,
                    col_color = None, col_status = ''custom-'' @ decimal now2\<rparr>],
              newColumnTitle := []\<rparr>)"

definition handleDeleteColumn :: "string \<Rightarrow> KanbanState \<Rightarrow> KanbanState" where
  "handleDeleteColumn columnId kb =
     (let defaultColumns = [''todo'', ''in-progress'', ''done'', ''pending'', ''blocked'']
      in if columnId \<in> set defaultColumns then kb
         else kb\<lparr>customColumns := filter (\<lambda>col. col_id col \<noteq> columnId) (customColumns kb)\<rparr>)"

definition handleEditColumn :: "string \<Rightarrow> string \<Rightarrow> KanbanState \<Rightarrow> KanbanState" where
  "handleEditColumn columnId newTitle kb =
     kb\<lparr>customColumns := map (\<lambda>col. if col_id col = columnId then col\<lparr>col_title := newTitle\<rparr> else col)
                              (customColumns kb),
        editingColumn := None\<rparr>"

text \<open>What the user can do in the column dialog, and a run of such events.\<close>

datatype column_event =
    TypeColumnTitle string
  | AddColumn int int
  | EditColumn string string
  | DeleteColumn string

fun column_step :: "KanbanState \<Rightarrow> column_event \<Rightarrow> KanbanState" where
  "column_step kb (TypeColumnTitle t) = kb\<lparr>newColumnTitle := t\<rparr>"
| "column_step kb (AddColumn now1 now2) = handleAddColumn now1 now2 kb"
| "column_step kb (EditColumn columnId newTitle) = handleEditColumn columnId newTitle kb"
| "column_step kb (DeleteColumn columnId) = handleDeleteColumn columnId kb"

definition column_run :: "column_event list \<Rightarrow> KanbanState" where
  "column_run evs = foldl column_step initialKanbanState evs"

section \<open>Example data\<close>

definition day :: "int \<Rightarrow> date" where
  "day n = Date (n * 86400000)"

definition mkTask :: "string \<Rightarrow> date \<Rightarrow> date \<Rightarrow> bool \<Rightarrow> TaskStatus option \<Rightarrow> Task" where
  "mkTask i s e c st =
     \<lparr>id' = i, projectId = ''p'', title = i, description = None, startDate = s, endDate = e,
      completed = c, createdAt = day 0, updatedAt = day 0, notes' = None, status = st\<rparr>"

definition mkState :: "Task list \<Rightarrow> ViewType \<Rightarrow> int \<Rightarrow> AppState" where
  "mkState ts v z = \<lparr>tasks = ts, currentView = v, isSidebarCollapsed = False, timelineZoom = z\<rparr>"

definition task_a :: Task where
  "task_a = mkTask ''a'' (day 0) (day 2) False (Some ''todo'')"

definition task_b :: Task where
  "task_b = mkTask ''b'' (day 4) (day 4) True None"

definition task_bad :: Task where
  "task_bad = mkTask ''bad'' InvalidDate (day 1) False (Some ''todo'')"

definition task_b_done :: Task where
  "task_b_done = mkTask ''b'' (day 4) (day 4) True (Some ''done'')"

lemmas ex_defs = task_a_def task_b_def task_bad_def task_b_done_def mkTask_def day_def mkState_def

definition task_late :: Task where
  "task_late = mkTask ''late'' (day 30) (day 31) False None"

definition two_weeks :: TimelineData where
  "two_weeks = \<lparr>periods = [Date (- 345600000), Date 259200000], tasks_td = [task_a, task_b],
                periodFormat = ''MMM dd'', startDate_td = Some (Date (- 345600000)),
                endDate_td = Some (Date 863999999)\<rparr>"

definition task_first :: Task where
  "task_first = mkTask ''first'' (day 0) (day 0) False None"

definition task_last :: Task where
  "task_last = mkTask ''last'' (day 200) (day 200) False None"

definition long_timeline :: TimelineData where
  "long_timeline =
     \<lparr>periods = map (\<lambda>k. Date (startOfDay_ms 0 + int k * MS_PER_DAY)) [0 ..< 201],
      tasks_td = [task_first, task_last], periodFormat = ''MMM dd'',
      startDate_td = Some (Date 0), endDate_td = Some (Date 17280000000)\<rparr>"




text \<open>The board has a column with id and status \<open>c\<close>.\<close>

definition hasDefault :: "string \<Rightarrow> KanbanState \<Rightarrow> bool" where
  "hasDefault c kb = (\<exists>col \<in> set (customColumns kb). col_id col = c \<and> col_status col = c)"


section \<open>Properties of the date range and of the periods\<close>

lemma count_list_filter_keep:
  "P t \<Longrightarrow> count_list (filter P xs) t = count_list xs t"
  by (induction xs) auto

lemma getTimes_valid:
  "\<forall>d \<in> set ds. isValidDate d \<Longrightarrow> \<exists>xs. getTimes ds = Some xs \<and> ds = map Date xs"
proof (induction ds)
  case Nil
  then show ?case by simp
next
  case (Cons d ds)
  then obtain xs where xs: "getTimes ds = Some xs" "ds = map Date xs" by auto
  from Cons.prems obtain t where "d = Date t"
    by (cases d) (auto simp: isValidDate_def)
  with xs show ?case by auto
qed

lemma allDatesOf_valid:
  "\<forall>t \<in> set vts. validDates t \<Longrightarrow> \<forall>d \<in> set (allDatesOf vts). isValidDate d"
  by (auto simp: allDatesOf_def validDates_def)

lemma allDatesOf_mem:
  "t \<in> set vts \<Longrightarrow> startDate t \<in> set (allDatesOf vts) \<and> endDate t \<in> set (allDatesOf vts)"
  by (auto simp: allDatesOf_def)

lemma allDatesOf_mem_iff:
  "d \<in> set (allDatesOf vts) \<longleftrightarrow> (\<exists>t \<in> set vts. startDate t = d \<or> endDate t = d)"
  by (auto simp: allDatesOf_def)

lemma date_range:
  assumes ne: "vts \<noteq> []" and val: "\<forall>t \<in> set vts. validDates t"
  shows "\<exists>mn mx. minDateOf (allDatesOf vts) = Date mn \<and> maxDateOf (allDatesOf vts) = Date mx
           \<and> Date mn \<in> set (allDatesOf vts) \<and> Date mx \<in> set (allDatesOf vts)
           \<and> (\<forall>x. Date x \<in> set (allDatesOf vts) \<longrightarrow> mn \<le> x \<and> x \<le> mx)"
proof -
  obtain xs where xs: "getTimes (allDatesOf vts) = Some xs" "allDatesOf vts = map Date xs"
    using getTimes_valid [OF allDatesOf_valid [OF val]] by blast
  from ne have "allDatesOf vts \<noteq> []"
    by (cases vts) (auto simp: allDatesOf_def)
  with xs obtain y ys where y: "xs = y # ys" by (cases xs) auto
  have "fold min ys y = Min (set xs)" "fold max ys y = Max (set xs)"
    unfolding y by (rule Min.set_eq_fold [symmetric], rule Max.set_eq_fold [symmetric])
  then have mn: "minDateOf (allDatesOf vts) = Date (Min (set xs))"
    and mx: "maxDateOf (allDatesOf vts) = Date (Max (set xs))"
    using xs y by (simp_all add: minDateOf_def maxDateOf_def)
  have s: "set (allDatesOf vts) = Date ` set xs" using xs by simp
  have "set xs \<noteq> {}" using y by simp
  then have "Min (set xs) \<in> set xs" "Max (set xs) \<in> set xs"
    by (rule Min_in [OF finite_set], rule Max_in [OF finite_set])
  moreover have "\<forall>x \<in> set xs. Min (set xs) \<le> x \<and> x \<le> Max (set xs)" by simp
  ultimately show ?thesis using mn mx s by auto
qed

lemma date_range_tasks:
  assumes ne: "vts \<noteq> []" and val: "\<forall>t \<in> set vts. validDates t"
  shows "\<exists>mn mx. minDateOf (allDatesOf vts) = Date mn \<and> maxDateOf (allDatesOf vts) = Date mx
           \<and> mn \<le> mx
           \<and> (\<exists>t \<in> set vts. startDate t = Date mn \<or> endDate t = Date mn)
           \<and> (\<exists>t \<in> set vts. startDate t = Date mx \<or> endDate t = Date mx)
           \<and> (\<forall>t \<in> set vts. \<forall>x. startDate t = Date x \<or> endDate t = Date x \<longrightarrow> mn \<le> x \<and> x \<le> mx)"
proof -
  obtain mn mx where r: "minDateOf (allDatesOf vts) = Date mn" "maxDateOf (allDatesOf vts) = Date mx"
      "Date mn \<in> set (allDatesOf vts)" "Date mx \<in> set (allDatesOf vts)"
      "\<forall>x. Date x \<in> set (allDatesOf vts) \<longrightarrow> mn \<le> x \<and> x \<le> mx"
    using date_range [OF ne val] by blast
  from r(3,5) have "mn \<le> mx" by blast
  moreover from r(3) have "\<exists>t \<in> set vts. startDate t = Date mn \<or> endDate t = Date mn"
    by (simp add: allDatesOf_mem_iff)
  moreover from r(4) have "\<exists>t \<in> set vts. startDate t = Date mx \<or> endDate t = Date mx"
    by (simp add: allDatesOf_mem_iff)
  moreover from r(5) have "\<forall>t \<in> set vts. \<forall>x. startDate t = Date x \<or> endDate t = Date x \<longrightarrow> mn \<le> x \<and> x \<le> mx"
    using allDatesOf_mem by metis
  ultimately show ?thesis using r(1,2) by blast
qed

lemma dayNumber_mono: "a \<le> b \<Longrightarrow> dayNumber a \<le> dayNumber b"
  by (simp add: dayNumber_def MS_PER_DAY_def zdiv_mono1)

lemma startOfWeek_ms_alt: "startOfWeek_ms t = (7 * ((dayNumber t + 4) div 7) - 4) * MS_PER_DAY"
proof -
  have "dayNumber t - (dayNumber t + 4) mod 7 = 7 * ((dayNumber t + 4) div 7) - 4"
    by presburger
  moreover have "startOfWeek_ms t = (dayNumber t - (dayNumber t + 4) mod 7) * MS_PER_DAY"
    by (simp add: startOfWeek_ms_def startOfDay_ms_def getDay_def left_diff_distrib)
  ultimately show ?thesis by simp
qed

lemma startOfWeek_ms_mono: "a \<le> b \<Longrightarrow> startOfWeek_ms a \<le> startOfWeek_ms b"
proof -
  assume "a \<le> b"
  then have "(dayNumber a + 4) div 7 \<le> (dayNumber b + 4) div 7"
    using dayNumber_mono [of a b] by (simp add: zdiv_mono1)
  then show ?thesis
    by (simp add: startOfWeek_ms_alt MS_PER_DAY_def)
qed

lemma startOfWeek_ms_le: "startOfWeek_ms t \<le> t"
proof -
  have "0 \<le> getDay t" by (simp add: getDay_def)
  then have "startOfWeek_ms t \<le> startOfDay_ms t"
    by (simp add: startOfWeek_ms_def MS_PER_DAY_def)
  then show ?thesis using startOfDay_ms_le [of t] by simp
qed

lemma endOfWeek_ms_ge: "t \<le> endOfWeek_ms t"
proof -
  have "getDay t \<le> 6" by (simp add: getDay_def)
  moreover have "t < startOfDay_ms t + MS_PER_DAY"
    using pos_mod_bound [of MS_PER_DAY t] div_mult_mod_eq [of t MS_PER_DAY]
    by (simp add: startOfDay_ms_def dayNumber_def MS_PER_DAY_def)
  ultimately show ?thesis
    by (simp add: endOfWeek_ms_def startOfWeek_ms_def MS_PER_DAY_def)
qed

lemma timelineData_empty:
  "filter validDates ts = [] \<Longrightarrow>
   timelineData ts view = Inr \<lparr>periods = [], tasks_td = [], periodFormat = [], startDate_td = None, endDate_td = None\<rparr>"
  by (simp add: timelineData_def)

lemma filter_validDates_all: "\<forall>t \<in> set (filter validDates ts). validDates t"
  by simp

lemma timelineData_daily:
  assumes "filter validDates ts \<noteq> []"
    and "minDateOf (allDatesOf (filter validDates ts)) = Date mn"
    and "maxDateOf (allDatesOf (filter validDates ts)) = Date mx"
    and "mn \<le> mx"
  shows "timelineData ts daily =
         Inr \<lparr>periods = map (\<lambda>k. Date (startOfDay_ms mn + int k * MS_PER_DAY))
                             [0 ..< nat (dayNumber mx - dayNumber mn + 1)],
              tasks_td = filter validDates ts, periodFormat = ''MMM dd'',
              startDate_td = Some (Date (mn)), endDate_td = Some (Date (mx))\<rparr>"
proof -
  have "\<not> mx < mn"
    using assms(4) by simp
  with assms show ?thesis
    by (simp add: timelineData_def eachDayOfInterval_def Let_def)
qed

lemma timelineData_weekly:
  assumes "filter validDates ts \<noteq> []"
    and "minDateOf (allDatesOf (filter validDates ts)) = Date mn"
    and "maxDateOf (allDatesOf (filter validDates ts)) = Date mx"
    and "mn \<le> mx"
  shows "timelineData ts weekly =
         Inr \<lparr>periods = map (\<lambda>k. Date (startOfWeek_ms (startOfWeek_ms mn) + int k * (7 * MS_PER_DAY)))
                             [0 ..< nat ((startOfWeek_ms (endOfWeek_ms mx) - startOfWeek_ms (startOfWeek_ms mn))
                                          div (7 * MS_PER_DAY) + 1)],
              tasks_td = filter validDates ts, periodFormat = ''MMM dd'',
              startDate_td = Some (Date (startOfWeek_ms mn)), endDate_td = Some (Date (endOfWeek_ms mx))\<rparr>"
proof -
  have "\<not> endOfWeek_ms mx < startOfWeek_ms mn"
    using assms(4) startOfWeek_ms_le [of mn] endOfWeek_ms_ge [of mx] by simp
  with assms show ?thesis
    by (simp add: timelineData_def eachWeekOfInterval_def startOfWeek_def endOfWeek_def onTime_def Let_def)
qed

lemma timelineData_monthly:
  assumes "filter validDates ts \<noteq> []"
    and "minDateOf (allDatesOf (filter validDates ts)) = Date mn"
    and "maxDateOf (allDatesOf (filter validDates ts)) = Date mx"
    and "mn \<le> mx"
  shows "timelineData ts monthly =
         Inr \<lparr>periods = monthsUpTo (startOfMonth_ms (startOfMonth_ms mn)) (endOfMonth_ms mx),
              tasks_td = filter validDates ts, periodFormat = ''MMM yyyy'',
              startDate_td = Some (Date (startOfMonth_ms mn)), endDate_td = Some (Date (endOfMonth_ms mx))\<rparr>"
proof -
  have "\<not> endOfMonth_ms mx < startOfMonth_ms mn"
    using assms(4) startOfMonth_ms_le [of mn] endOfMonth_ms_ge [of mx] by simp
  with assms show ?thesis
    by (simp add: timelineData_def eachMonthOfInterval_def startOfMonth_def endOfMonth_def onTime_def Let_def)
qed

lemma timelineData_kanban:
  assumes "filter validDates ts \<noteq> []"
  shows "\<exists>td. timelineData ts kanban = Inr td \<and> periods td = [] \<and> tasks_td td = filter validDates ts"
  using assms by (simp add: timelineData_def Let_def)

lemma monthsUpTo_nonempty: "a \<le> b \<Longrightarrow> monthsUpTo a b \<noteq> []"
  by (simp add: monthsUpTo.simps [of a b])

lemma timelineData_result:
  "\<exists>td. timelineData ts view = Inr td
      \<and> tasks_td td = filter validDates ts
      \<and> (filter validDates ts = [] \<longrightarrow> periods td = [] \<and> startDate_td td = None \<and> endDate_td td = None)
      \<and> (filter validDates ts \<noteq> [] \<and> view \<noteq> kanban \<longrightarrow> periods td \<noteq> [])"
proof (cases "filter validDates ts = []")
  case True
  then show ?thesis by (simp add: timelineData_empty)
next
  case False
  obtain mn mx where r: "minDateOf (allDatesOf (filter validDates ts)) = Date mn"
      "maxDateOf (allDatesOf (filter validDates ts)) = Date mx" "mn \<le> mx"
    using date_range_tasks [OF False filter_validDates_all] by blast
  show ?thesis
  proof (cases view)
    case daily
    have "0 < nat (dayNumber mx - dayNumber mn + 1)"
      using dayNumber_mono [OF r(3)] by simp
    with timelineData_daily [OF False r] daily False show ?thesis by simp
  next
    case weekly
    have "startOfWeek_ms mn \<le> endOfWeek_ms mx"
      using r(3) startOfWeek_ms_le [of mn] endOfWeek_ms_ge [of mx] by simp
    then have "0 \<le> startOfWeek_ms (endOfWeek_ms mx) - startOfWeek_ms (startOfWeek_ms mn)"
      using startOfWeek_ms_mono [of "startOfWeek_ms mn" "endOfWeek_ms mx"] by simp
    then have "0 \<le> (startOfWeek_ms (endOfWeek_ms mx) - startOfWeek_ms (startOfWeek_ms mn)) div (7 * MS_PER_DAY)"
      by (simp add: MS_PER_DAY_def pos_imp_zdiv_nonneg_iff)
    then have "0 < nat ((startOfWeek_ms (endOfWeek_ms mx) - startOfWeek_ms (startOfWeek_ms mn))
                                          div (7 * MS_PER_DAY) + 1)"
      by simp
    with timelineData_weekly [OF False r] weekly False show ?thesis by simp
  next
    case monthly
    have "startOfMonth_ms (startOfMonth_ms mn) \<le> endOfMonth_ms mx"
      using r(3) startOfMonth_ms_le [of mn] startOfMonth_ms_le [of "startOfMonth_ms mn"] endOfMonth_ms_ge [of mx]
      by simp
    then have "monthsUpTo (startOfMonth_ms (startOfMonth_ms mn)) (endOfMonth_ms mx) \<noteq> []"
      by (rule monthsUpTo_nonempty)
    with timelineData_monthly [OF False r] monthly False show ?thesis by simp
  next
    case kanban
    with False timelineData_kanban [OF False] show ?thesis by auto
  qed
qed

lemma Timeline_bars_tasks:
  assumes "timelineData ts view = Inr td"
  shows "\<exists>bars. Timeline_bars ts view zoom = Inr bars
           \<and> map fst bars = (if periods td = [] then [] else tasks_td td)"
  using assms by (simp add: Timeline_bars_def Let_def comp_def)

lemma ReadOnlyTimeline_bars_tasks:
  assumes "timelineData ts view = Inr td"
  shows "\<exists>bars. ReadOnlyTimeline_bars ts view zoom = Inr bars
           \<and> map fst bars = (if periods td = [] then [] else tasks_td td)"
  using assms by (simp add: ReadOnlyTimeline_bars_def Let_def comp_def)

lemma count_list_distinct: "distinct xs \<Longrightarrow> x \<in> set xs \<Longrightarrow> count_list xs x = 1"
  by (induction xs) (auto simp: count_list_0_iff)

lemma count_list_filter_drop: "\<not> P t \<Longrightarrow> count_list (filter P xs) t = 0"
  by (simp add: count_list_0_iff)


section \<open>Positions in the three views\<close>

lemma differenceInDays_ms_nonneg: "b \<le> a \<Longrightarrow> differenceInDays_ms a b = (a - b) div MS_PER_DAY"
  by (simp add: differenceInDays_ms_def)

lemma dailySpan_valid:
  assumes task: "startDate task = Date s" "endDate task = Date e"
    and ord: "mn \<le> s" "mn \<le> e" "e \<le> mx"
  shows "dailySpan (Date mn) (Date mx) task =
      Some ((mx - mn) div MS_PER_DAY + 1, (s - mn) div MS_PER_DAY,
            max 1 ((e - mn) div MS_PER_DAY - (s - mn) div MS_PER_DAY + 1))"
    and "0 \<le> (s - mn) div MS_PER_DAY" and "0 < (mx - mn) div MS_PER_DAY + 1"
proof -
  show a: "0 \<le> (s - mn) div MS_PER_DAY"
    using ord by (simp add: MS_PER_DAY_def pos_imp_zdiv_nonneg_iff)
  have a2: "0 \<le> (mx - mn) div MS_PER_DAY"
    using ord by (simp add: MS_PER_DAY_def pos_imp_zdiv_nonneg_iff)
  then show "0 < (mx - mn) div MS_PER_DAY + 1" by simp
  have b: "(e - mn) div MS_PER_DAY \<le> (mx - mn) div MS_PER_DAY"
    using ord by (simp add: MS_PER_DAY_def zdiv_mono1)
  show "dailySpan (Date mn) (Date mx) task =
      Some ((mx - mn) div MS_PER_DAY + 1, (s - mn) div MS_PER_DAY,
            max 1 ((e - mn) div MS_PER_DAY - (s - mn) div MS_PER_DAY + 1))"
    using task ord a a2 b
    by (simp add: dailySpan_def differenceInDays_def differenceInDays_ms_def Let_def max_def min_def)
qed

lemma getTaskPosition_daily_valid:
  assumes ps: "ps \<noteq> []"
    and td: "startDate_td td = Some (Date mn)" "endDate_td td = Some (Date mx)"
    and task: "startDate task = Date s" "endDate task = Date e"
    and ord: "mn \<le> s" "mn \<le> e" "e \<le> mx"
  shows "getTaskPosition daily td task ps =
    Some \<lparr>left = real_of_int ((s - mn) div MS_PER_DAY) / real_of_int ((mx - mn) div MS_PER_DAY + 1) * 100,
          width = max 1 (real_of_int (max 1 ((e - mn) div MS_PER_DAY - (s - mn) div MS_PER_DAY + 1))
                          / real_of_int ((mx - mn) div MS_PER_DAY + 1) * 100)\<rparr>"
proof -
  obtain p0 ps' where p: "ps = p0 # ps'" using ps by (cases ps) auto
  note span = dailySpan_valid(1) [OF task ord]
  note a = dailySpan_valid(2,3) [OF task ord]
  have l: "0 \<le> real_of_int ((s - mn) div MS_PER_DAY) / real_of_int ((mx - mn) div MS_PER_DAY + 1) * 100"
    using a by simp
  show ?thesis
    using p td span a l by (simp add: getTaskPosition_def max_def)
qed


lemma getTaskPosition_ro_daily_valid:
  assumes ps: "ps \<noteq> []"
    and td: "startDate_td td = Some (Date mn)" "endDate_td td = Some (Date mx)"
    and task: "startDate task = Date s" "endDate task = Date e"
    and ord: "mn \<le> s" "mn \<le> e" "e \<le> mx"
    and cw: "0 \<le> cw"
  shows "getTaskPosition_ro daily td task ps cw =
    Some \<lparr>left = real_of_int ((s - mn) div MS_PER_DAY) * cw,
          width = real_of_int (max 1 ((e - mn) div MS_PER_DAY - (s - mn) div MS_PER_DAY + 1)) * cw\<rparr>"
proof -
  obtain p0 ps' where p: "ps = p0 # ps'" using ps by (cases ps) auto
  note span = dailySpan_valid(1) [OF task ord]
  note a = dailySpan_valid(2,3) [OF task ord]
  have l: "0 \<le> real_of_int ((s - mn) div MS_PER_DAY) * cw"
    using a cw by simp
  have "1 * cw \<le> real_of_int (max 1 ((e - mn) div MS_PER_DAY - (s - mn) div MS_PER_DAY + 1)) * cw"
    using cw by (intro mult_right_mono) simp_all
  then have w: "cw \<le> real_of_int (max 1 ((e - mn) div MS_PER_DAY - (s - mn) div MS_PER_DAY + 1)) * cw"
    by simp
  show ?thesis
    using p td span l w by (simp add: getTaskPosition_ro_def max_absorb2)
qed

lemma position_weekly_monthly:
  assumes "ps \<noteq> []" "startDate_td td = Some a" "endDate_td td = Some b"
  shows "getTaskPosition weekly td task ps =
           Some \<lparr>left = real_of_int (startIndex endOfWeek task ps) / real_of_int (int (length ps)) * 100,
                 width = real_of_int (endIndex endOfWeek task ps - startIndex endOfWeek task ps + 1)
                           / real_of_int (int (length ps)) * 100\<rparr>"
    and "getTaskPosition monthly td task ps =
           Some \<lparr>left = real_of_int (startIndex endOfMonth task ps) / real_of_int (int (length ps)) * 100,
                 width = real_of_int (endIndex endOfMonth task ps - startIndex endOfMonth task ps + 1)
                           / real_of_int (int (length ps)) * 100\<rparr>"
    and "getTaskPosition_ro weekly td task ps cw =
           Some \<lparr>left = real_of_int (startIndex endOfWeek task ps) * cw,
                 width = real_of_int (endIndex endOfWeek task ps - startIndex endOfWeek task ps + 1) * cw\<rparr>"
    and "getTaskPosition_ro monthly td task ps cw =
           Some \<lparr>left = real_of_int (startIndex endOfMonth task ps) * cw,
                 width = real_of_int (endIndex endOfMonth task ps - startIndex endOfMonth task ps + 1) * cw\<rparr>"
proof -
  obtain p0 ps' where p: "ps = p0 # ps'" using assms(1) by (cases ps) auto
  show "getTaskPosition weekly td task ps =
           Some \<lparr>left = real_of_int (startIndex endOfWeek task ps) / real_of_int (int (length ps)) * 100,
                 width = real_of_int (endIndex endOfWeek task ps - startIndex endOfWeek task ps + 1)
                           / real_of_int (int (length ps)) * 100\<rparr>"
    using assms(2,3) unfolding p by (simp add: getTaskPosition_def Let_def)
  show "getTaskPosition monthly td task ps =
           Some \<lparr>left = real_of_int (startIndex endOfMonth task ps) / real_of_int (int (length ps)) * 100,
                 width = real_of_int (endIndex endOfMonth task ps - startIndex endOfMonth task ps + 1)
                           / real_of_int (int (length ps)) * 100\<rparr>"
    using assms(2,3) unfolding p by (simp add: getTaskPosition_def Let_def)
  show "getTaskPosition_ro weekly td task ps cw =
           Some \<lparr>left = real_of_int (startIndex endOfWeek task ps) * cw,
                 width = real_of_int (endIndex endOfWeek task ps - startIndex endOfWeek task ps + 1) * cw\<rparr>"
    using assms(2,3) unfolding p by (simp add: getTaskPosition_ro_def Let_def)
  show "getTaskPosition_ro monthly td task ps cw =
           Some \<lparr>left = real_of_int (startIndex endOfMonth task ps) * cw,
                 width = real_of_int (endIndex endOfMonth task ps - startIndex endOfMonth task ps + 1) * cw\<rparr>"
    using assms(2,3) unfolding p by (simp add: getTaskPosition_ro_def Let_def)
qed

lemma getColumnWidth_nonneg: "0 \<le> zoom \<Longrightarrow> 0 \<le> getColumnWidth view zoom"
  by (simp add: getColumnWidth_def Math_round_def Let_def)

lemma position_defined:
  assumes ne: "filter validDates ts \<noteq> []"
    and td: "timelineData ts view = Inr td"
    and mem: "task \<in> set (filter validDates ts)"
  shows "getTaskPosition view td task (periods td) \<noteq> None
       \<and> getTaskPosition_ro view td task (periods td) cw \<noteq> None"
proof (cases "periods td = []")
  case True
  then show ?thesis
    by (simp add: getTaskPosition_def getTaskPosition_ro_def)
next
  case False
  obtain mn mx where r: "minDateOf (allDatesOf (filter validDates ts)) = Date mn"
      "maxDateOf (allDatesOf (filter validDates ts)) = Date mx" "mn \<le> mx"
    and bnd: "\<forall>t \<in> set (filter validDates ts). \<forall>x. startDate t = Date x \<or> endDate t = Date x \<longrightarrow> mn \<le> x \<and> x \<le> mx"
    using date_range_tasks [OF ne filter_validDates_all] by blast
  show ?thesis
  proof (cases view)
    case daily
    from mem obtain s e where task: "startDate task = Date s" "endDate task = Date e"
      by (cases "startDate task"; cases "endDate task") (auto simp: validDates_def isValidDate_def)
    have ord: "mn \<le> s" "mn \<le> e" "e \<le> mx"
      using bnd mem task by blast+
    have d: "startDate_td td = Some (Date mn)" "endDate_td td = Some (Date mx)"
      using timelineData_daily [OF ne r] td daily by auto
    obtain p0 ps' where p: "periods td = p0 # ps'" using False by (cases "periods td") auto
    have "getTaskPosition daily td task (periods td) \<noteq> None"
      using getTaskPosition_daily_valid [OF False d task ord] by simp
    moreover have "getTaskPosition_ro daily td task (periods td) cw \<noteq> None"
      using d dailySpan_valid(1) [OF task ord] unfolding p
      by (simp add: getTaskPosition_ro_def)
    ultimately show ?thesis using daily by simp
  next
    case weekly
    have d: "startDate_td td = Some (Date (startOfWeek_ms mn))" "endDate_td td = Some (Date (endOfWeek_ms mx))"
      using timelineData_weekly [OF ne r] td weekly by auto
    show ?thesis
      using position_weekly_monthly(1,3) [OF False d] weekly by simp
  next
    case monthly
    have d: "startDate_td td = Some (Date (startOfMonth_ms mn))" "endDate_td td = Some (Date (endOfMonth_ms mx))"
      using timelineData_monthly [OF ne r] td monthly by auto
    show ?thesis
      using position_weekly_monthly(2,4) [OF False d] monthly by simp
  next
    case kanban
    with timelineData_kanban [OF ne] td False show ?thesis by auto
  qed
qed

lemma Timeline_bars_defined:
  assumes "Timeline_bars ts view zoom = Inr bars" "b \<in> set bars"
  shows "snd b \<noteq> None"
proof -
  obtain td where td: "timelineData ts view = Inr td" "tasks_td td = filter validDates ts"
    using timelineData_result [of ts view] by blast
  show ?thesis
  proof (cases "periods td = []")
    case True
    with assms td show ?thesis by (simp add: Timeline_bars_def)
  next
    case False
    with assms td obtain task where t: "task \<in> set (filter validDates ts)"
        "snd b = map_option (barStyle (length (periods td)) (getColumnWidth view zoom))
                   (getTaskPosition view td task (periods td))"
      by (auto simp: Timeline_bars_def Let_def)
    from t(1) have "filter validDates ts \<noteq> []"
      by (metis empty_iff list.set(1))
    from position_defined [OF this td(1) t(1)] t(2) show ?thesis by simp
  qed
qed

lemma ReadOnlyTimeline_bars_defined:
  assumes "ReadOnlyTimeline_bars ts view zoom = Inr bars" "b \<in> set bars"
  shows "snd b \<noteq> None"
proof -
  obtain td where td: "timelineData ts view = Inr td" "tasks_td td = filter validDates ts"
    using timelineData_result [of ts view] by blast
  show ?thesis
  proof (cases "periods td = []")
    case True
    with assms td show ?thesis by (simp add: ReadOnlyTimeline_bars_def)
  next
    case False
    with assms td obtain task where t: "task \<in> set (filter validDates ts)"
        "snd b = map_option barStyle_ro
                   (getTaskPosition_ro view td task (periods td) (real_of_int (getColumnWidth view zoom)))"
      by (auto simp: ReadOnlyTimeline_bars_def Let_def)
    from t(1) have "filter validDates ts \<noteq> []"
      by (metis empty_iff list.set(1))
    from position_defined [OF this td(1) t(1)] t(2) show ?thesis by simp
  qed
qed

section \<open>Rounding error of the double-precision arithmetic\<close>








section \<open>Claims about the layout\<close>

text \<open>
  C7.  For every task list and view the layout computation returns a model and raises
  nothing; the model's tasks are the input tasks whose start and end date are both
  valid, in their order; with no valid task the model is empty (no period, no date
  range) and both components draw no bar.  In the daily, weekly and monthly view each
  component draws its bars for exactly the valid tasks: a valid task has as many bars
  as it has occurrences in the input (one, when the input has no duplicates), a task
  with an invalid date has none, and every bar has a finite geometry.
\<close>

theorem layout_excludes_invalid_dates_only:
  "\<exists>td bars bars_ro.
      timelineData ts view = Inr td
      \<and> Timeline_bars ts view zoom = Inr bars
      \<and> ReadOnlyTimeline_bars ts view zoom = Inr bars_ro
      \<and> tasks_td td = filter validDates ts
      \<and> (filter validDates ts = [] \<longrightarrow>
            periods td = [] \<and> startDate_td td = None \<and> endDate_td td = None \<and> bars = [] \<and> bars_ro = [])
      \<and> (\<forall>b \<in> set bars. snd b \<noteq> None) \<and> (\<forall>b \<in> set bars_ro. snd b \<noteq> None)
      \<and> (view \<noteq> kanban \<longrightarrow>
            map fst bars = filter validDates ts \<and> map fst bars_ro = filter validDates ts
            \<and> (\<forall>t. validDates t \<longrightarrow> count_list (map fst bars) t = count_list ts t
                                    \<and> count_list (map fst bars_ro) t = count_list ts t)
            \<and> (\<forall>t. \<not> validDates t \<longrightarrow> count_list (map fst bars) t = 0
                                      \<and> count_list (map fst bars_ro) t = 0)
            \<and> (distinct ts \<longrightarrow> (\<forall>t \<in> set ts. validDates t \<longrightarrow>
                   count_list (map fst bars) t = 1 \<and> count_list (map fst bars_ro) t = 1)))"
proof -
  obtain td where td: "timelineData ts view = Inr td" "tasks_td td = filter validDates ts"
      "filter validDates ts = [] \<longrightarrow> periods td = [] \<and> startDate_td td = None \<and> endDate_td td = None"
      "filter validDates ts \<noteq> [] \<and> view \<noteq> kanban \<longrightarrow> periods td \<noteq> []"
    using timelineData_result [of ts view] by blast
  obtain bars where b: "Timeline_bars ts view zoom = Inr bars"
      "map fst bars = (if periods td = [] then [] else tasks_td td)"
    using Timeline_bars_tasks [OF td(1)] by blast
  obtain bars_ro where r: "ReadOnlyTimeline_bars ts view zoom = Inr bars_ro"
      "map fst bars_ro = (if periods td = [] then [] else tasks_td td)"
    using ReadOnlyTimeline_bars_tasks [OF td(1)] by blast
  have e: "filter validDates ts = [] \<longrightarrow> bars = [] \<and> bars_ro = []"
    using b(2) r(2) td(2) by (auto split: if_splits)
  have m: "view \<noteq> kanban \<longrightarrow> map fst bars = filter validDates ts \<and> map fst bars_ro = filter validDates ts"
    using b(2) r(2) td(2,3,4) by (auto split: if_splits)
  have c1: "\<forall>t. validDates t \<longrightarrow> count_list (filter validDates ts) t = count_list ts t"
    by (simp add: count_list_filter_keep)
  have c0: "\<forall>t. \<not> validDates t \<longrightarrow> count_list (filter validDates ts) t = 0"
    by (simp add: count_list_filter_drop)
  have cd: "distinct ts \<longrightarrow> (\<forall>t \<in> set ts. validDates t \<longrightarrow> count_list (filter validDates ts) t = 1)"
    by (simp add: count_list_distinct)
  have f: "\<forall>b \<in> set bars. snd b \<noteq> None" "\<forall>b \<in> set bars_ro. snd b \<noteq> None"
    using Timeline_bars_defined [OF b(1)] ReadOnlyTimeline_bars_defined [OF r(1)] by blast+
  have v: "view \<noteq> kanban \<longrightarrow>
            map fst bars = filter validDates ts \<and> map fst bars_ro = filter validDates ts
            \<and> (\<forall>t. validDates t \<longrightarrow> count_list (map fst bars) t = count_list ts t
                                    \<and> count_list (map fst bars_ro) t = count_list ts t)
            \<and> (\<forall>t. \<not> validDates t \<longrightarrow> count_list (map fst bars) t = 0
                                      \<and> count_list (map fst bars_ro) t = 0)
            \<and> (distinct ts \<longrightarrow> (\<forall>t \<in> set ts. validDates t \<longrightarrow>
                   count_list (map fst bars) t = 1 \<and> count_list (map fst bars_ro) t = 1))"
    using m c1 c0 cd by simp
  show ?thesis
    using td(1,2,3) b(1) r(1) e f v by blast
qed

theorem layout_excludes_invalid_dates_only_witness:
  "(\<exists>td bars bars_ro.
      timelineData [task_bad] weekly = Inr td
      \<and> Timeline_bars [task_bad] weekly 100 = Inr bars
      \<and> ReadOnlyTimeline_bars [task_bad] weekly 100 = Inr bars_ro
      \<and> filter validDates [task_bad] = []
      \<and> periods td = [] \<and> bars = [] \<and> bars_ro = [])
   \<and> (\<exists>td bars bars_ro.
      timelineData [task_a, task_bad, task_b] daily = Inr td
      \<and> Timeline_bars [task_a, task_bad, task_b] daily 100 = Inr bars
      \<and> ReadOnlyTimeline_bars [task_a, task_bad, task_b] daily 100 = Inr bars_ro
      \<and> daily \<noteq> kanban \<and> validDates task_a \<and> \<not> validDates task_bad
      \<and> distinct [task_a, task_bad, task_b] \<and> task_a \<in> set [task_a, task_bad, task_b]
      \<and> tasks_td td = [task_a, task_b]
      \<and> map fst bars = [task_a, task_b] \<and> map fst bars_ro = [task_a, task_b]
      \<and> count_list (map fst bars) task_a = 1 \<and> count_list (map fst bars_ro) task_a = 1
      \<and> count_list (map fst bars) task_bad = 0 \<and> count_list (map fst bars_ro) task_bad = 0)"
proof -
  have f1: "filter validDates [task_bad] = []"
    by (simp add: validDates_def isValidDate_def ex_defs)
  have f2: "filter validDates [task_a, task_bad, task_b] = [task_a, task_b]"
    by (simp add: validDates_def isValidDate_def ex_defs)
  have v: "validDates task_a" "\<not> validDates task_bad"
    by (simp_all add: validDates_def isValidDate_def ex_defs)
  have d: "distinct [task_a, task_bad, task_b]" "task_a \<in> set [task_a, task_bad, task_b]"
    by (simp_all add: ex_defs)
  have "\<exists>td bars bars_ro.
      timelineData [task_bad] weekly = Inr td
      \<and> Timeline_bars [task_bad] weekly 100 = Inr bars
      \<and> ReadOnlyTimeline_bars [task_bad] weekly 100 = Inr bars_ro
      \<and> filter validDates [task_bad] = []
      \<and> periods td = [] \<and> bars = [] \<and> bars_ro = []"
    using layout_excludes_invalid_dates_only [of "[task_bad]" weekly 100] f1 by auto
  moreover have "\<exists>td bars bars_ro.
      timelineData [task_a, task_bad, task_b] daily = Inr td
      \<and> Timeline_bars [task_a, task_bad, task_b] daily 100 = Inr bars
      \<and> ReadOnlyTimeline_bars [task_a, task_bad, task_b] daily 100 = Inr bars_ro
      \<and> daily \<noteq> kanban \<and> validDates task_a \<and> \<not> validDates task_bad
      \<and> distinct [task_a, task_bad, task_b] \<and> task_a \<in> set [task_a, task_bad, task_b]
      \<and> tasks_td td = [task_a, task_b]
      \<and> map fst bars = [task_a, task_b] \<and> map fst bars_ro = [task_a, task_b]
      \<and> count_list (map fst bars) task_a = 1 \<and> count_list (map fst bars_ro) task_a = 1
      \<and> count_list (map fst bars) task_bad = 0 \<and> count_list (map fst bars_ro) task_bad = 0"
  proof -
    obtain td bars bars_ro where
      A: "timelineData [task_a, task_bad, task_b] daily = Inr td"
         "Timeline_bars [task_a, task_bad, task_b] daily 100 = Inr bars"
         "ReadOnlyTimeline_bars [task_a, task_bad, task_b] daily 100 = Inr bars_ro"
         "tasks_td td = filter validDates [task_a, task_bad, task_b]"
      and K: "daily \<noteq> kanban \<longrightarrow>
            map fst bars = filter validDates [task_a, task_bad, task_b]
            \<and> map fst bars_ro = filter validDates [task_a, task_bad, task_b]
            \<and> (\<forall>t. validDates t \<longrightarrow> count_list (map fst bars) t = count_list [task_a, task_bad, task_b] t
                                    \<and> count_list (map fst bars_ro) t = count_list [task_a, task_bad, task_b] t)
            \<and> (\<forall>t. \<not> validDates t \<longrightarrow> count_list (map fst bars) t = 0
                                      \<and> count_list (map fst bars_ro) t = 0)
            \<and> (distinct [task_a, task_bad, task_b] \<longrightarrow> (\<forall>t \<in> set [task_a, task_bad, task_b]. validDates t \<longrightarrow>
                   count_list (map fst bars) t = 1 \<and> count_list (map fst bars_ro) t = 1))"
      using layout_excludes_invalid_dates_only [of "[task_a, task_bad, task_b]" daily 100] by blast
    have k: "map fst bars = [task_a, task_b]" "map fst bars_ro = [task_a, task_b]"
      using K f2 by simp_all
    have c1: "count_list (map fst bars) task_a = 1 \<and> count_list (map fst bars_ro) task_a = 1"
      using K v(1) d by blast
    have c0: "count_list (map fst bars) task_bad = 0 \<and> count_list (map fst bars_ro) task_bad = 0"
      using K v(2) by blast
    show ?thesis
      using A f2 v d k c1 c0 by (intro exI [of _ td] exI [of _ bars] exI [of _ bars_ro]) simp
  qed
  ultimately show ?thesis by blast
qed

lemmas f64_defs = fmul_def fdiv_def fl_def ulp_def round_even_def halvings.simps doublings.simps





lemma getTaskPosition_f64_daily_valid:
  assumes ps: "ps \<noteq> []"
    and td: "startDate_td td = Some (Date mn)" "endDate_td td = Some (Date mx)"
    and task: "startDate task = Date s" "endDate task = Date e"
    and ord: "mn \<le> s" "mn \<le> e" "e \<le> mx"
  shows "getTaskPosition_f64 daily td task ps =
    Some \<lparr>left = max 0 (fmul (fdiv (real_of_int ((s - mn) div MS_PER_DAY))
                                   (real_of_int ((mx - mn) div MS_PER_DAY + 1))) 100),
          width = max 1 (fmul (fdiv (real_of_int (max 1 ((e - mn) div MS_PER_DAY - (s - mn) div MS_PER_DAY + 1)))
                                    (real_of_int ((mx - mn) div MS_PER_DAY + 1))) 100)\<rparr>"
proof -
  obtain p0 ps' where p: "ps = p0 # ps'" using ps by (cases ps) auto
  note span = dailySpan_valid(1) [OF task ord]
  note a = dailySpan_valid(2,3) [OF task ord]
  show ?thesis
    using td span a unfolding p by (simp add: getTaskPosition_f64_def)
qed




lemma findIndex_range: "- 1 \<le> findIndex P xs \<and> findIndex P xs < int (length xs)"
  by (induction xs) (auto simp: Let_def)

lemma findIndex_none: "\<forall>x \<in> set xs. \<not> P x \<Longrightarrow> findIndex P xs = - 1"
  by (induction xs) (auto simp: Let_def)

lemma findIndex_found: "0 \<le> findIndex P xs \<Longrightarrow> P (xs ! nat (findIndex P xs))"
proof (induction xs)
  case Nil
  then show ?case by simp
next
  case (Cons x xs)
  show ?case
  proof (cases "P x")
    case True
    then show ?thesis by simp
  next
    case False
    with Cons.prems have nn: "0 \<le> findIndex P xs"
      by (simp add: Let_def split: if_splits)
    with False have "findIndex P (x # xs) = findIndex P xs + 1"
      by (simp add: Let_def)
    with nn Cons.IH show ?thesis
      by (simp add: nat_add_distrib)
  qed
qed

lemma startIndex_range:
  "ps \<noteq> [] \<Longrightarrow> 0 \<le> startIndex endOf task ps \<and> startIndex endOf task ps < int (length ps)"
  using findIndex_range [of "inPeriod endOf (startDate task)" ps]
  by (cases ps) (auto simp: startIndex_def Let_def)

lemma startIndex_fallback:
  "\<forall>p \<in> set ps. \<not> inPeriod endOf (startDate task) p \<Longrightarrow> startIndex endOf task ps = 0"
  by (simp add: startIndex_def findIndex_none)

lemma endIndex_range:
  "ps \<noteq> [] \<Longrightarrow> startIndex endOf task ps \<le> endIndex endOf task ps
                \<and> endIndex endOf task ps < int (length ps)"
  using startIndex_range [of ps endOf task]
  by (auto simp: endIndex_def Let_def)

lemma endIndex_fallback:
  "ps \<noteq> [] \<Longrightarrow> \<forall>p \<in> set ps. \<not> inPeriod endOf (endDate task) p \<Longrightarrow>
   endIndex endOf task ps = startIndex endOf task ps"
  using startIndex_range [of ps endOf task]
  by (simp add: endIndex_def findIndex_none Let_def)

text \<open>
  C3.  Weekly and monthly view, with at least one period.  When no period's range
  from its start to its end holds the task's start date, the start index is 0; when no
  period's range holds the task's end date, the end index is the start index.  In every
  case the start index is a valid index and the end index lies between the start index
  and the last index, so the width computed by the editable timeline is at least the
  share of one period in the whole span, and the width computed by the read-only
  timeline is at least one column.
\<close>

theorem period_index_fallbacks:
  assumes ps: "ps \<noteq> []"
    and td: "startDate_td td = Some a" "endDate_td td = Some b"
    and view: "(view = weekly \<and> endOf = endOfWeek) \<or> (view = monthly \<and> endOf = endOfMonth)"
    and cw: "0 \<le> cw"
  shows "((\<forall>p \<in> set ps. \<not> inPeriod endOf (startDate task) p) \<longrightarrow> startIndex endOf task ps = 0)
     \<and> ((\<forall>p \<in> set ps. \<not> inPeriod endOf (endDate task) p) \<longrightarrow>
            endIndex endOf task ps = startIndex endOf task ps)
     \<and> 0 \<le> startIndex endOf task ps
     \<and> startIndex endOf task ps \<le> endIndex endOf task ps
     \<and> endIndex endOf task ps < int (length ps)
     \<and> (\<exists>p. getTaskPosition view td task ps = Some p
            \<and> left p = real_of_int (startIndex endOf task ps) / real (length ps) * 100
            \<and> width p = real_of_int (endIndex endOf task ps - startIndex endOf task ps + 1)
                          / real (length ps) * 100
            \<and> 1 / real (length ps) * 100 \<le> width p)
     \<and> (\<exists>p. getTaskPosition_ro view td task ps cw = Some p
            \<and> left p = real_of_int (startIndex endOf task ps) * cw
            \<and> width p = real_of_int (endIndex endOf task ps - startIndex endOf task ps + 1) * cw
            \<and> cw \<le> width p)"
proof -
  note s = startIndex_range [OF ps, of endOf task]
  note e = endIndex_range [OF ps, of endOf task]
  have n: "0 < real (length ps)" using ps by simp
  have one: "1 \<le> real_of_int (endIndex endOf task ps - startIndex endOf task ps + 1)"
    using e by simp
  then have w1: "1 / real (length ps) * 100
        \<le> real_of_int (endIndex endOf task ps - startIndex endOf task ps + 1) / real (length ps) * 100"
    using n by (simp add: divide_le_cancel)
  have "1 * cw \<le> real_of_int (endIndex endOf task ps - startIndex endOf task ps + 1) * cw"
    using one cw by (rule mult_right_mono)
  then have w2: "cw \<le> real_of_int (endIndex endOf task ps - startIndex endOf task ps + 1) * cw"
    by simp
  have ed: "\<exists>p. getTaskPosition view td task ps = Some p
            \<and> left p = real_of_int (startIndex endOf task ps) / real (length ps) * 100
            \<and> width p = real_of_int (endIndex endOf task ps - startIndex endOf task ps + 1)
                          / real (length ps) * 100
            \<and> 1 / real (length ps) * 100 \<le> width p"
    using view position_weekly_monthly(1,2) [OF ps td, of task] w1 by auto
  have ro: "\<exists>p. getTaskPosition_ro view td task ps cw = Some p
            \<and> left p = real_of_int (startIndex endOf task ps) * cw
            \<and> width p = real_of_int (endIndex endOf task ps - startIndex endOf task ps + 1) * cw
            \<and> cw \<le> width p"
    using view position_weekly_monthly(3,4) [OF ps td, of task cw] w2 by auto
  show ?thesis
    using s e ed ro startIndex_fallback [of ps endOf task] endIndex_fallback [OF ps, of endOf task]
    by blast
qed

theorem period_index_fallbacks_witness:
  "periods two_weeks \<noteq> []
   \<and> startDate_td two_weeks = Some (Date (- 345600000)) \<and> endDate_td two_weeks = Some (Date 863999999)
   \<and> (0::real) \<le> 120
   \<and> list_all (\<lambda>p. \<not> inPeriod endOfWeek (startDate task_late) p) (periods two_weeks)
   \<and> list_all (\<lambda>p. \<not> inPeriod endOfWeek (endDate task_late) p) (periods two_weeks)
   \<and> startIndex endOfWeek task_late (periods two_weeks) = 0
   \<and> endIndex endOfWeek task_late (periods two_weeks) = 0
   \<and> getTaskPosition weekly two_weeks task_late (periods two_weeks) = Some \<lparr>left = 0, width = 50\<rparr>
   \<and> getTaskPosition_ro weekly two_weeks task_late (periods two_weeks) 120 = Some \<lparr>left = 0, width = 120\<rparr>"
proof -
  have h: "periods two_weeks \<noteq> []" "startDate_td two_weeks = Some (Date (- 345600000))"
      "endDate_td two_weeks = Some (Date 863999999)"
      "(weekly = weekly \<and> endOfWeek = endOfWeek) \<or> (weekly = monthly \<and> endOfWeek = endOfMonth)"
      "(0::real) \<le> 120"
    by (simp_all add: two_weeks_def)
  have n: "\<forall>p \<in> set (periods two_weeks). \<not> inPeriod endOfWeek (startDate task_late) p"
      "\<forall>p \<in> set (periods two_weeks). \<not> inPeriod endOfWeek (endDate task_late) p"
    by (simp_all add: two_weeks_def task_late_def mkTask_def day_def inPeriod_def date_ge_def date_le_def
          endOfWeek_def onTime_def endOfWeek_ms_def startOfWeek_ms_def startOfDay_ms_def dayNumber_def
          getDay_def MS_PER_DAY_def)
  note T = period_index_fallbacks [OF h, of task_late]
  from T n have i: "startIndex endOfWeek task_late (periods two_weeks) = 0"
      "endIndex endOfWeek task_late (periods two_weeks) = 0"
    by simp_all
  from T obtain p where p: "getTaskPosition weekly two_weeks task_late (periods two_weeks) = Some p"
      "left p = real_of_int (startIndex endOfWeek task_late (periods two_weeks)) / real (length (periods two_weeks)) * 100"
      "width p = real_of_int (endIndex endOfWeek task_late (periods two_weeks)
                   - startIndex endOfWeek task_late (periods two_weeks) + 1)
                          / real (length (periods two_weeks)) * 100"
    by blast
  from T obtain q where q: "getTaskPosition_ro weekly two_weeks task_late (periods two_weeks) 120 = Some q"
      "left q = real_of_int (startIndex endOfWeek task_late (periods two_weeks)) * 120"
      "width q = real_of_int (endIndex endOfWeek task_late (periods two_weeks)
                   - startIndex endOfWeek task_late (periods two_weeks) + 1) * 120"
    by blast
  have "p = \<lparr>left = 0, width = 50\<rparr>" using p(2,3) i by (simp add: two_weeks_def)
  moreover have "q = \<lparr>left = 0, width = 120\<rparr>" using q(2,3) i by simp
  ultimately show ?thesis
    using h(1,2,3,5) n i p(1) q(1) by (simp add: list_all_iff)
qed

subsection \<open>The editable and the read-only timeline side by side\<close>

text \<open>
  With quotient and product taken exactly (\<open>getTaskPosition\<close>, \<open>barStyle\<close>): for
  the weekly and the monthly view the percentages of the editable timeline, turned into
  pixels by its bar style, are the pixels of the read-only timeline.  This is a
  statement about exact arithmetic; it does not decide the last digits of the doubles.
\<close>

lemma barStyle_percent_of_columns:
  assumes "n \<noteq> 0"
  shows "barStyle n cw \<lparr>left = a / real n * 100, width = b / real n * 100\<rparr>
       = barStyle_ro \<lparr>left = a * real_of_int cw, width = b * real_of_int cw\<rparr>"
proof -
  have "a / real n * 100 / 100 * (real n * real_of_int cw) = a * real_of_int cw"
       "b / real n * 100 / 100 * (real n * real_of_int cw) = b * real_of_int cw"
    using assms by simp_all
  then show ?thesis
    by (simp only: barStyle_def barStyle_ro_def Position.simps)
qed

lemma bars_agree_weekly_monthly:
  assumes "view = weekly \<or> view = monthly"
  shows "Timeline_bars ts view zoom = ReadOnlyTimeline_bars ts view zoom"
proof -
  obtain td where td: "timelineData ts view = Inr td" "tasks_td td = filter validDates ts"
      "filter validDates ts = [] \<longrightarrow> periods td = [] \<and> startDate_td td = None \<and> endDate_td td = None"
    using timelineData_result [of ts view] by blast
  show ?thesis
  proof (cases "periods td = []")
    case True
    with td show ?thesis by (simp add: Timeline_bars_def ReadOnlyTimeline_bars_def)
  next
    case False
    with td(3) have ne: "filter validDates ts \<noteq> []" by blast
    obtain mn mx where r: "minDateOf (allDatesOf (filter validDates ts)) = Date mn"
        "maxDateOf (allDatesOf (filter validDates ts)) = Date mx" "mn \<le> mx"
      using date_range_tasks [OF ne filter_validDates_all] by blast
    obtain a b where d: "startDate_td td = Some a" "endDate_td td = Some b"
      using assms timelineData_weekly [OF ne r] timelineData_monthly [OF ne r] td(1) by auto
    have n: "length (periods td) \<noteq> 0" using False by simp
    have "map_option (barStyle (length (periods td)) (getColumnWidth view zoom))
                     (getTaskPosition view td task (periods td))
        = map_option barStyle_ro
                     (getTaskPosition_ro view td task (periods td) (real_of_int (getColumnWidth view zoom)))"
      for task
      using assms position_weekly_monthly [OF False d] barStyle_percent_of_columns [OF n]
      by (auto simp del: of_int_add of_int_diff)
    with td(1) False show ?thesis
      by (simp add: Timeline_bars_def ReadOnlyTimeline_bars_def Let_def)
  qed
qed

text \<open>
  Again in exact arithmetic: in the daily view the two components agree as long as the
  dates lie at midnight and the whole timeline has at most 100 days: then a width of one
  day is at least 1 percent of the span and the percent floor of the editable timeline
  is not reached.
\<close>

lemma bars_agree_daily_short:
  assumes zoom: "0 \<le> zoom"
    and midnight: "\<forall>t \<in> set ts. \<forall>x. validDates t \<and> (startDate t = Date x \<or> endDate t = Date x)
                      \<longrightarrow> x mod MS_PER_DAY = 0"
    and short: "\<forall>t \<in> set ts. \<forall>u \<in> set ts. \<forall>x y.
                   validDates t \<and> validDates u \<and> (startDate t = Date x \<or> endDate t = Date x)
                   \<and> (startDate u = Date y \<or> endDate u = Date y) \<longrightarrow> y - x < 100 * MS_PER_DAY"
  shows "Timeline_bars ts daily zoom = ReadOnlyTimeline_bars ts daily zoom"
proof (cases "filter validDates ts = []")
  case True
  then show ?thesis
    by (simp add: Timeline_bars_def ReadOnlyTimeline_bars_def timelineData_empty)
next
  case False
  let ?vts = "filter validDates ts"
  obtain mn mx where r: "minDateOf (allDatesOf ?vts) = Date mn" "maxDateOf (allDatesOf ?vts) = Date mx"
      "mn \<le> mx"
    and mnE: "\<exists>t \<in> set ?vts. startDate t = Date mn \<or> endDate t = Date mn"
    and mxE: "\<exists>t \<in> set ?vts. startDate t = Date mx \<or> endDate t = Date mx"
    and bnd: "\<forall>t \<in> set ?vts. \<forall>x. startDate t = Date x \<or> endDate t = Date x \<longrightarrow> mn \<le> x \<and> x \<le> mx"
    using date_range_tasks [OF False filter_validDates_all] by blast
  define T where "T = (mx - mn) div MS_PER_DAY + 1"
  define cw where "cw = getColumnWidth daily zoom"
  define ps where "ps = map (\<lambda>k. Date (startOfDay_ms mn + int k * MS_PER_DAY))
                             [0 ..< nat (dayNumber mx - dayNumber mn + 1)]"
  define td where "td = \<lparr>periods = ps, tasks_td = ?vts, periodFormat = ''MMM dd'',
              startDate_td = Some (Date mn), endDate_td = Some (Date mx)\<rparr>"
  have tl: "timelineData ts daily = Inr td"
    using timelineData_daily [OF False r] by (simp add: td_def ps_def)
  have d: "startDate_td td = Some (Date mn)" "endDate_td td = Some (Date mx)" "periods td = ps"
      "tasks_td td = ?vts"
    by (simp_all add: td_def)
  have mn0: "mn mod MS_PER_DAY = 0" using mnE midnight by auto
  have "mx - mn < 100 * MS_PER_DAY" using mnE mxE short by auto
  then have "(mx - mn) div MS_PER_DAY < 100"
    by (simp add: MS_PER_DAY_def)
  then have T100: "T \<le> 100" by (simp add: T_def)
  have Tpos: "0 < T"
    using r(3) by (simp add: T_def MS_PER_DAY_def pos_imp_zdiv_nonneg_iff add.commute add_pos_nonneg)
  have D0: "MS_PER_DAY \<noteq> 0" by (simp add: MS_PER_DAY_def)
  have "MS_PER_DAY dvd mn" using mn0 by (simp add: dvd_eq_mod_eq_0)
  then obtain k where k: "mn = k * MS_PER_DAY" by (auto simp: dvd_def mult.commute)
  have "(mx - mn) div MS_PER_DAY = (mx + (- k) * MS_PER_DAY) div MS_PER_DAY"
    by (simp add: k)
  also have "\<dots> = - k + mx div MS_PER_DAY"
    using D0 by (rule div_mult_self1)
  finally have "(mx - mn) div MS_PER_DAY = mx div MS_PER_DAY - mn div MS_PER_DAY"
    using D0 by (simp add: k)
  then have len: "length ps = nat T"
    by (simp add: ps_def T_def dayNumber_def)
  have psne: "ps \<noteq> []" using len Tpos by auto
  have cw0: "0 \<le> real_of_int cw" unfolding cw_def using getColumnWidth_nonneg [OF zoom] by simp
  have each: "map_option (barStyle (length ps) cw) (getTaskPosition daily td task ps)
            = map_option barStyle_ro (getTaskPosition_ro daily td task ps (real_of_int cw))"
    if mem: "task \<in> set ?vts" for task
  proof -
    from mem obtain s e where task: "startDate task = Date s" "endDate task = Date e"
      by (cases "startDate task"; cases "endDate task") (auto simp: validDates_def isValidDate_def)
    have ord: "mn \<le> s" "mn \<le> e" "e \<le> mx"
      using bnd mem task by blast+
    define dS where "dS = (s - mn) div MS_PER_DAY"
    define dur where "dur = max 1 ((e - mn) div MS_PER_DAY - (s - mn) div MS_PER_DAY + 1)"
    note ed = getTaskPosition_daily_valid [OF psne d(1,2) task ord, folded T_def dur_def dS_def]
    note ro = getTaskPosition_ro_daily_valid [OF psne d(1,2) task ord cw0, folded dur_def dS_def]
    have dur1: "1 \<le> real_of_int dur" by (simp add: dur_def)
    have Tr: "0 < real_of_int T" "real_of_int T \<le> 100" using Tpos T100 by simp_all
    have "1 * real_of_int T \<le> real_of_int dur * 100"
      using dur1 Tr by (intro mult_mono) simp_all
    then have "1 \<le> real_of_int dur / real_of_int T * 100"
      using Tr(1) by (simp add: field_simps)
    then have w: "max 1 (real_of_int dur / real_of_int T * 100) = real_of_int dur / real_of_int T * 100"
      by simp
    have n: "real (nat T) = real_of_int T" using Tpos by simp
    have l: "real_of_int dS / real_of_int T * 100 / 100 * (real_of_int T * real_of_int cw)
              = real_of_int dS * real_of_int cw"
         "real_of_int dur / real_of_int T * 100 / 100 * (real_of_int T * real_of_int cw)
              = real_of_int dur * real_of_int cw"
      using Tr(1) by simp_all
    show ?thesis
      unfolding ed ro len w by (simp only: option.map barStyle_def barStyle_ro_def Position.simps n l)
  qed
  have "map (\<lambda>task. (task, map_option (barStyle (length ps) cw) (getTaskPosition daily td task ps))) ?vts
      = map (\<lambda>task. (task, map_option barStyle_ro (getTaskPosition_ro daily td task ps (real_of_int cw)))) ?vts"
    using each by (intro map_cong) simp_all
  with tl d(3,4) psne show ?thesis
    by (simp add: Timeline_bars_def ReadOnlyTimeline_bars_def Let_def cw_def)
qed

lemma long_timeline_data: "timelineData [task_first, task_last] daily = Inr long_timeline"
proof -
  have "timelineData [task_first, task_last] daily =
      Inr \<lparr>periods = map (\<lambda>k. Date (startOfDay_ms 0 + int k * MS_PER_DAY))
                             [0 ..< nat (dayNumber 17280000000 - dayNumber 0 + 1)],
              tasks_td = filter validDates [task_first, task_last], periodFormat = ''MMM dd'',
              startDate_td = Some (Date 0), endDate_td = Some (Date 17280000000)\<rparr>"
    by (rule timelineData_daily)
       (simp_all add: validDates_def isValidDate_def task_first_def task_last_def mkTask_def day_def
          allDatesOf_def minDateOf_def maxDateOf_def)
  moreover have "nat (dayNumber 17280000000 - dayNumber 0 + 1) = 201"
    by (simp add: dayNumber_def MS_PER_DAY_def)
  moreover have "filter validDates [task_first, task_last] = [task_first, task_last]"
    by (simp add: validDates_def isValidDate_def task_first_def task_last_def mkTask_def day_def)
  ultimately show ?thesis by (simp only: long_timeline_def)
qed

lemma long_timeline_fields:
  "periods long_timeline \<noteq> []" "length (periods long_timeline) = 201"
  "startDate_td long_timeline = Some (Date 0)" "endDate_td long_timeline = Some (Date 17280000000)"
  "tasks_td long_timeline = [task_first, task_last]"
  by (simp_all add: long_timeline_def del: upt_rec_numeral)

lemma long_timeline_positions:
  "getTaskPosition daily long_timeline task_first (periods long_timeline) = Some \<lparr>left = 0, width = 1\<rparr>"
  "getTaskPosition daily long_timeline task_last (periods long_timeline) = Some \<lparr>left = 20000 / 201, width = 1\<rparr>"
  "getTaskPosition_ro daily long_timeline task_first (periods long_timeline) 100 = Some \<lparr>left = 0, width = 100\<rparr>"
  "getTaskPosition_ro daily long_timeline task_last (periods long_timeline) 100 = Some \<lparr>left = 20000, width = 100\<rparr>"
proof -
  have f: "startDate task_first = Date 0" "endDate task_first = Date 0"
    and l: "startDate task_last = Date 17280000000" "endDate task_last = Date 17280000000"
    by (simp_all add: task_first_def task_last_def mkTask_def day_def)
  show "getTaskPosition daily long_timeline task_first (periods long_timeline) = Some \<lparr>left = 0, width = 1\<rparr>"
    using getTaskPosition_daily_valid [OF long_timeline_fields(1,3,4) f]
    by (simp add: MS_PER_DAY_def)
  show "getTaskPosition daily long_timeline task_last (periods long_timeline) = Some \<lparr>left = 20000 / 201, width = 1\<rparr>"
    using getTaskPosition_daily_valid [OF long_timeline_fields(1,3,4) l]
    by (simp add: MS_PER_DAY_def)
  show "getTaskPosition_ro daily long_timeline task_first (periods long_timeline) 100 = Some \<lparr>left = 0, width = 100\<rparr>"
    using getTaskPosition_ro_daily_valid [OF long_timeline_fields(1,3,4) f, of 100]
    by (simp add: MS_PER_DAY_def)
  show "getTaskPosition_ro daily long_timeline task_last (periods long_timeline) 100 = Some \<lparr>left = 20000, width = 100\<rparr>"
    using getTaskPosition_ro_daily_valid [OF long_timeline_fields(1,3,4) l, of 100]
    by (simp add: MS_PER_DAY_def)
qed

text \<open>
  In double precision the position of the first task in the long timeline is the same:
  1/201 of 100 percent rounds to a number below 1 and the floor 1 takes over.
\<close>

lemma long_timeline_position_f64:
  "getTaskPosition_f64 daily long_timeline task_first (periods long_timeline) = Some \<lparr>left = 0, width = 1\<rparr>"
proof -
  have f: "startDate task_first = Date 0" "endDate task_first = Date 0"
    by (simp_all add: task_first_def mkTask_def day_def)
  have z: "fmul (fdiv 0 201) 100 = 0" by (simp add: fmul_def fdiv_def fl_def)
  have w: "fmul (fdiv 1 201) 100 = 8962387318150241 / 18014398509481984"
    by (simp add: f64_defs Let_def)
  show ?thesis
    using getTaskPosition_f64_daily_valid [OF long_timeline_fields(1,3,4) f]
    by (simp add: MS_PER_DAY_def z w)
qed

lemma columnWidth_daily_100: "getColumnWidth daily 100 = 100"
  by (simp add: getColumnWidth_def Math_round_def)

text \<open>
  C1.  The two components do not draw the same bars in the daily view once the
  timeline is longer than 100 days.  Two one-day tasks, 200 days apart, at zoom 100
  (columns of 100 px, 201 columns): the editable timeline floors the width at 1 percent
  of the whole span, 201 px, where the read-only timeline floors it at one column,
  100 px.
\<close>

theorem renderers_disagree_on_long_daily_timeline:
  "Timeline_bars [task_first, task_last] daily 100 =
     Inr [(task_first, Some \<lparr>left_px = 0, width_px = 201\<rparr>),
          (task_last, Some \<lparr>left_px = 20000, width_px = 201\<rparr>)]
   \<and> ReadOnlyTimeline_bars [task_first, task_last] daily 100 =
     Inr [(task_first, Some \<lparr>left_px = 0, width_px = 100\<rparr>),
          (task_last, Some \<lparr>left_px = 20000, width_px = 100\<rparr>)]"
  by (simp add: Timeline_bars_def ReadOnlyTimeline_bars_def long_timeline_data long_timeline_fields
        long_timeline_positions columnWidth_daily_100 barStyle_def barStyle_ro_def)

text \<open>
  The parts of the width computation that hold in both components: the duration in
  days is at least 1 and the drawn width is at least 40 px; in the read-only timeline,
  whose pixels are products of integers, a task that ends on or before the day it starts
  gets exactly one column.  For the percentages of the editable timeline, taken in exact
  arithmetic: the daily width is at least one day, and a task that ends on or before the
  day it starts gets exactly one day as long as the timeline has at most 100 days.
\<close>

lemma bar_width_floor: "40 \<le> width_px (barStyle n cw p) \<and> 40 \<le> width_px (barStyle_ro p)"
  by (simp add: barStyle_def barStyle_ro_def)

lemma dailySpan_duration_floor:
  "dailySpan start end' task = Some (totalDays, taskStartDays, taskDuration) \<Longrightarrow> 1 \<le> taskDuration"
  by (auto simp: dailySpan_def Let_def split: option.splits)

lemma daily_length_at_least_one_day:
  assumes ps: "ps \<noteq> []"
    and td: "startDate_td td = Some (Date mn)" "endDate_td td = Some (Date mx)"
    and task: "startDate task = Date s" "endDate task = Date e"
    and ord: "mn \<le> s" "mn \<le> e" "e \<le> mx"
    and cw: "0 \<le> cw"
  shows "\<exists>p. getTaskPosition daily td task ps = Some p
             \<and> 1 \<le> width p / 100 * real_of_int ((mx - mn) div MS_PER_DAY + 1)"
    and "\<exists>p. getTaskPosition_ro daily td task ps cw = Some p \<and> cw \<le> width p"
    and "e \<le> s \<Longrightarrow> getTaskPosition_ro daily td task ps cw
             = Some \<lparr>left = real_of_int ((s - mn) div MS_PER_DAY) * cw, width = cw\<rparr>"
    and "e \<le> s \<Longrightarrow> (mx - mn) div MS_PER_DAY + 1 \<le> 100 \<Longrightarrow>
           \<exists>p. getTaskPosition daily td task ps = Some p
             \<and> width p / 100 * real_of_int ((mx - mn) div MS_PER_DAY + 1) = 1"
proof -
  define T where "T = (mx - mn) div MS_PER_DAY + 1"
  define dur where "dur = max 1 ((e - mn) div MS_PER_DAY - (s - mn) div MS_PER_DAY + 1)"
  have Tpos: "0 < T" unfolding T_def by (rule dailySpan_valid(3) [OF task ord])
  have dur1: "1 \<le> dur" by (simp add: dur_def)
  note ed = getTaskPosition_daily_valid [OF ps td task ord, folded T_def dur_def]
  note ro = getTaskPosition_ro_daily_valid [OF ps td task ord cw, folded dur_def]
  define W where "W = max 1 (real_of_int dur / real_of_int T * 100)"
  have "real_of_int dur / real_of_int T * 100 \<le> W"
    by (simp add: W_def)
  then have "real_of_int dur \<le> W / 100 * real_of_int T"
    using Tpos by (simp add: field_simps)
  with dur1 have "1 \<le> W / 100 * real_of_int T"
    by linarith
  then have "1 \<le> max 1 (real_of_int dur / real_of_int T * 100) / 100 * real_of_int T"
    by (simp only: W_def)
  with ed show "\<exists>p. getTaskPosition daily td task ps = Some p
             \<and> 1 \<le> width p / 100 * real_of_int ((mx - mn) div MS_PER_DAY + 1)"
    by (simp add: T_def)
  have "1 * cw \<le> real_of_int dur * cw" using dur1 cw by (intro mult_right_mono) simp_all
  with ro show "\<exists>p. getTaskPosition_ro daily td task ps cw = Some p \<and> cw \<le> width p"
    by simp
  {
    assume rev: "e \<le> s"
    then have "(e - mn) div MS_PER_DAY \<le> (s - mn) div MS_PER_DAY"
      by (simp add: MS_PER_DAY_def zdiv_mono1)
    then have d1: "dur = 1" by (simp add: dur_def)
    with ro show "getTaskPosition_ro daily td task ps cw
             = Some \<lparr>left = real_of_int ((s - mn) div MS_PER_DAY) * cw, width = cw\<rparr>"
      by simp
    assume short: "(mx - mn) div MS_PER_DAY + 1 \<le> 100"
    then have "real_of_int T \<le> 100" by (simp add: T_def)
    then have "1 \<le> 1 / real_of_int T * 100" using Tpos by (simp add: field_simps)
    then have "max 1 (1 / real_of_int T * 100) = 1 / real_of_int T * 100" by simp
    moreover have "1 / real_of_int T * 100 / 100 * real_of_int T = 1" using Tpos by simp
    ultimately have "max 1 (real_of_int dur / real_of_int T * 100) / 100 * real_of_int T = 1"
      using d1 by simp
    with ed show "\<exists>p. getTaskPosition daily td task ps = Some p
             \<and> width p / 100 * real_of_int ((mx - mn) div MS_PER_DAY + 1) = 1"
      unfolding T_def [symmetric] by simp
  }
qed

text \<open>
  C4.  A task that starts and ends on the same day, in a daily timeline of 201 days:
  the editable timeline returns a width of 1 percent, which is 2.01 days of the span
  and not 1 day; the read-only timeline returns one column of 100 px, which is 1 day.
\<close>

theorem single_day_task_wider_than_one_day:
  "timelineData [task_first, task_last] daily = Inr long_timeline
   \<and> startDate task_first = endDate task_first
   \<and> differenceInDays (Date 17280000000) (Date 0) = Some 200
   \<and> getTaskPosition daily long_timeline task_first (periods long_timeline) = Some \<lparr>left = 0, width = 1\<rparr>
   \<and> (1 :: real) / 100 * (200 + 1) = 201 / 100
   \<and> getTaskPosition_ro daily long_timeline task_first (periods long_timeline) 100 = Some \<lparr>left = 0, width = 100\<rparr>"
proof -
  have "startDate task_first = endDate task_first"
    by (simp add: task_first_def mkTask_def)
  moreover have "differenceInDays (Date 17280000000) (Date 0) = Some 200"
    by (simp add: differenceInDays_def differenceInDays_ms_def MS_PER_DAY_def)
  moreover have "(1 :: real) / 100 * (200 + 1) = 201 / 100"
    by simp
  ultimately show ?thesis
    using long_timeline_data long_timeline_positions(1,3) by simp
qed

section \<open>Store: frame properties of the task actions\<close>

lemma updateTask_nth:
  "i < length (tasks st) \<Longrightarrow>
   tasks (updateTask task st) ! i = (if id' (tasks st ! i) = id' task then task else tasks st ! i)"
  by (simp add: updateTask_def)

lemma deleteTask_count:
  "id' t \<noteq> taskId \<Longrightarrow> count_list (tasks (deleteTask taskId st)) t = count_list (tasks st) t"
  by (simp add: deleteTask_def count_list_filter_keep)

text \<open>
  C10.  \<open>updateTask task\<close> keeps the length of the task list, puts \<open>task\<close> at every
  position whose task has the id of \<open>task\<close> and leaves every other position as it was;
  \<open>deleteTask taskId\<close> yields a subsequence of the old list (same order) that holds no
  task with that id and every other task as often as before.  Neither touches another
  field of the store.
\<close>

theorem store_task_actions_frame:
  "length (tasks (updateTask task st)) = length (tasks st)
   \<and> (\<forall>i < length (tasks st).
        tasks (updateTask task st) ! i = (if id' (tasks st ! i) = id' task then task else tasks st ! i))
   \<and> subseq (tasks (deleteTask taskId st)) (tasks st)
   \<and> (\<forall>t \<in> set (tasks (deleteTask taskId st)). id' t \<noteq> taskId)
   \<and> (\<forall>t. id' t \<noteq> taskId \<longrightarrow>
          count_list (tasks (deleteTask taskId st)) t = count_list (tasks st) t)
   \<and> filter (\<lambda>t. id' t \<noteq> taskId) (tasks (deleteTask taskId st)) = filter (\<lambda>t. id' t \<noteq> taskId) (tasks st)
   \<and> currentView (updateTask task st) = currentView st
   \<and> timelineZoom (updateTask task st) = timelineZoom st
   \<and> isSidebarCollapsed (updateTask task st) = isSidebarCollapsed st
   \<and> currentView (deleteTask taskId st) = currentView st
   \<and> timelineZoom (deleteTask taskId st) = timelineZoom st
   \<and> isSidebarCollapsed (deleteTask taskId st) = isSidebarCollapsed st"
proof -
  have d: "tasks (deleteTask taskId st) = filter (\<lambda>t. id' t \<noteq> taskId) (tasks st)"
    by (simp add: deleteTask_def)
  have u: "length (tasks (updateTask task st)) = length (tasks st)"
    by (simp add: updateTask_def)
  have f: "currentView (updateTask task st) = currentView st
     \<and> timelineZoom (updateTask task st) = timelineZoom st
     \<and> isSidebarCollapsed (updateTask task st) = isSidebarCollapsed st
     \<and> currentView (deleteTask taskId st) = currentView st
     \<and> timelineZoom (deleteTask taskId st) = timelineZoom st
     \<and> isSidebarCollapsed (deleteTask taskId st) = isSidebarCollapsed st"
    by (simp add: updateTask_def deleteTask_def)
  show ?thesis
    using u f d updateTask_nth [of _ st task] deleteTask_count [of _ taskId st]
    by simp
qed

theorem store_task_actions_frame_witness:
  "(1::nat) < length (tasks (mkState [task_a, task_b] daily 100))
   \<and> tasks (updateTask task_b_done (mkState [task_a, task_b] daily 100)) = [task_a, task_b_done]
   \<and> task_b \<in> set (tasks (deleteTask ''a'' (mkState [task_a, task_b] daily 100)))
   \<and> id' task_b \<noteq> ''a''
   \<and> count_list (tasks (deleteTask ''a'' (mkState [task_a, task_b] daily 100))) task_b = 1
   \<and> tasks (deleteTask ''a'' (mkState [task_a, task_b] daily 100)) = [task_b]"
  using store_task_actions_frame [of task_b_done "mkState [task_a, task_b] daily 100" "''a''"]
  by (simp add: mkState_def task_a_def task_b_def task_b_done_def mkTask_def updateTask_def deleteTask_def)

section \<open>Zoom stays between 50 and 200\<close>

text \<open>
  C5.  Whatever integer the setter receives, the zoom it stores lies in 50..200: a value
  below 50 becomes 50, one above 200 becomes 200, one in between is kept, and the text
  persisted under \<open>timelineZoom\<close> is the numeral of the stored value.  Zooming in
  at 200 and zooming out at 50 leave the store as it is, and reset stores exactly 100.
\<close>

theorem zoom_clamped:
  "50 \<le> timelineZoom (fst (setTimelineZoom x w))
   \<and> timelineZoom (fst (setTimelineZoom x w)) \<le> 200
   \<and> (x < 50 \<longrightarrow> timelineZoom (fst (setTimelineZoom x w)) = 50)
   \<and> (200 < x \<longrightarrow> timelineZoom (fst (setTimelineZoom x w)) = 200)
   \<and> (50 \<le> x \<and> x \<le> 200 \<longrightarrow> timelineZoom (fst (setTimelineZoom x w)) = x)
   \<and> snd (setTimelineZoom x w) ''timelineZoom''
        = Some (JSON_stringify (timelineZoom (fst (setTimelineZoom x w))))
   \<and> (timelineZoom (fst w) = 200 \<longrightarrow> fst (handleZoomIn w) = fst w)
   \<and> (timelineZoom (fst w) = 50 \<longrightarrow> fst (handleZoomOut w) = fst w)
   \<and> timelineZoom (fst (handleReset w)) = 100"
  by (simp add: setTimelineZoom_def handleZoomIn_def handleZoomOut_def handleReset_def Let_def)

theorem zoom_clamped_witness:
  "timelineZoom (fst (setTimelineZoom 7 (mkState [] daily 200, Map.empty))) = 50
   \<and> timelineZoom (fst (setTimelineZoom 1000 (mkState [] daily 200, Map.empty))) = 200
   \<and> timelineZoom (fst (setTimelineZoom 125 (mkState [] daily 200, Map.empty))) = 125
   \<and> timelineZoom (fst (mkState [] daily 200, Map.empty :: Storage)) = 200
   \<and> fst (handleZoomIn (mkState [] daily 200, Map.empty)) = mkState [] daily 200
   \<and> timelineZoom (fst (mkState [] daily 50, Map.empty :: Storage)) = 50
   \<and> fst (handleZoomOut (mkState [] daily 50, Map.empty)) = mkState [] daily 50"
  using zoom_clamped [of 7 "(mkState [] daily 200, Map.empty)"]
    zoom_clamped [of 1000 "(mkState [] daily 200, Map.empty)"]
    zoom_clamped [of 125 "(mkState [] daily 200, Map.empty)"]
    zoom_clamped [of 0 "(mkState [] daily 50, Map.empty)"]
  by (simp add: mkState_def)

section \<open>Reading the persisted view state\<close>

text \<open>
  Whatever the parser, an absent key, an empty text and a text the parser rejects give
  the defaults, zoom 100 and an expanded side bar.
\<close>

lemma initialize_defaults:
  "localStorage ''timelineZoom'' = None \<Longrightarrow> initializeTimelineZoom parse localStorage = JNumber 100"
  "localStorage ''timelineZoom'' = Some [] \<Longrightarrow> initializeTimelineZoom parse localStorage = JNumber 100"
  "localStorage ''timelineZoom'' = Some saved \<Longrightarrow> parse saved = Inl err \<Longrightarrow>
     initializeTimelineZoom parse localStorage = JNumber 100"
  "localStorage ''sidebarCollapsed'' = None \<Longrightarrow> initializeSidebarState parse localStorage = JBool False"
  "localStorage ''sidebarCollapsed'' = Some [] \<Longrightarrow> initializeSidebarState parse localStorage = JBool False"
  "localStorage ''sidebarCollapsed'' = Some saved \<Longrightarrow> parse saved = Inl err \<Longrightarrow>
     initializeSidebarState parse localStorage = JBool False"
  by (simp_all add: initializeTimelineZoom_def initializeSidebarState_def)

lemmas parse_defs = JSON_parse_def isJsonSpace_def isNatLiteral_def isDigit_def natLiteralValue_def
  digitValue_def

text \<open>
  C6.  A stored text that parses is returned as it is, with no check of its range or
  type: the stored text 500 gives an initial zoom of 500, above the documented range
  50 to 200 that \<open>setTimelineZoom\<close> keeps, and the stored text 5 gives the number 5
  as the collapsed flag.
\<close>

theorem stored_zoom_read_back_unchecked:
  "JSON_parse ''500'' = Inr (JNumber 500)
   \<and> initializeTimelineZoom JSON_parse [''timelineZoom'' \<mapsto> ''500''] = JNumber 500
   \<and> JSON_parse ''5'' = Inr (JNumber 5)
   \<and> initializeSidebarState JSON_parse [''sidebarCollapsed'' \<mapsto> ''5''] = JNumber 5"
  by (simp add: initializeTimelineZoom_def initializeSidebarState_def parse_defs)

section \<open>The Kanban board: dropping a task\<close>

text \<open>
  A drop on a column whose status differs from the task's status field, when the remote
  update succeeds, replaces the task in the store by the dragged task with the column's
  status and with \<open>completed\<close> true exactly for the column \<open>done\<close>; a drop on a
  column whose status equals the task's status field leaves the store as it is.
\<close>

lemma handleDrop_moves:
  assumes "draggedTask (fst w) = Some t" "status t \<noteq> Some newStatus"
  shows "tasks (snd (handleDrop newStatus True w)) =
           map (\<lambda>x. if id' x = id' t then t\<lparr>status := Some newStatus, completed := (newStatus = ''done'')\<rparr> else x)
               (tasks (snd w))"
    and "snd (handleDrop newStatus False w) = snd w"
    and "draggedTask (fst (handleDrop newStatus ok w)) = None"
  using assms by (simp_all add: handleDrop_def Let_def updateTask_def)

lemma handleDrop_same_status:
  assumes "draggedTask (fst w) = Some t" "status t = Some newStatus"
  shows "snd (handleDrop newStatus ok w) = snd w"
  using assms by (simp add: handleDrop_def Let_def)

text \<open>
  C8.  A task without a status field is shown in the column \<open>todo\<close>.  Dropped on
  that column it is not left alone: its absent status is not equal to \<open>todo\<close>, so the
  task is rewritten with status \<open>todo\<close> and \<open>completed\<close> false, here from true.
\<close>

theorem drop_on_own_column_rewrites_task_without_status:
  "task_b \<in> set (getTasksByStatus ''todo'' [task_b])
   \<and> status task_b = None \<and> completed task_b
   \<and> tasks (snd (handleDrop ''todo'' True
              (handleDragStart task_b initialKanbanState, mkState [task_b] kanban 100)))
       = [task_b\<lparr>status := Some ''todo'', completed := False\<rparr>]
   \<and> task_b\<lparr>status := Some ''todo'', completed := False\<rparr> \<noteq> task_b"
  by (simp add: getTasksByStatus_def statusOrTodo_def handleDrop_def handleDragStart_def
        initialKanbanState_def updateTask_def Let_def ex_defs)

section \<open>The Kanban board: the default columns stay\<close>

lemma hasDefault_step:
  assumes "c \<in> set [''todo'', ''in-progress'', ''done'', ''pending'', ''blocked'']" "hasDefault c kb"
  shows "hasDefault c (column_step kb ev)"
proof (cases ev)
  case (TypeColumnTitle t)
  with assms(2) show ?thesis by (simp add: hasDefault_def)
next
  case (AddColumn n1 n2)
  with assms(2) show ?thesis by (auto simp: hasDefault_def handleAddColumn_def)
next
  case (EditColumn cid t)
  from assms(2) obtain col where col: "col \<in> set (customColumns kb)" "col_id col = c" "col_status col = c"
    by (auto simp: hasDefault_def)
  let ?f = "\<lambda>col. if col_id col = cid then col\<lparr>col_title := t\<rparr> else col"
  have "?f col \<in> ?f ` set (customColumns kb)" using col(1) by (rule imageI)
  then have "?f col \<in> set (map ?f (customColumns kb))" by (simp only: set_map)
  moreover have "col_id (?f col) = c" "col_status (?f col) = c" using col(2,3) by simp_all
  ultimately show ?thesis unfolding EditColumn
    by (auto simp: hasDefault_def handleEditColumn_def simp del: set_map)
next
  case (DeleteColumn cid)
  show ?thesis
  proof (cases "cid \<in> set [''todo'', ''in-progress'', ''done'', ''pending'', ''blocked'']")
    case True
    with assms(2) DeleteColumn show ?thesis by (simp add: handleDeleteColumn_def)
  next
    case False
    with assms(1) have "cid \<noteq> c" by auto
    with assms(2) False DeleteColumn show ?thesis
      by (auto simp: hasDefault_def handleDeleteColumn_def Let_def)
  qed
qed

lemma hasDefault_run:
  assumes "c \<in> set [''todo'', ''in-progress'', ''done'', ''pending'', ''blocked'']" "hasDefault c kb"
  shows "hasDefault c (foldl column_step kb evs)"
  using assms(2) by (induction evs arbitrary: kb) (simp_all add: hasDefault_step [OF assms(1)])

lemma hasDefault_initial:
  "c \<in> set [''todo'', ''in-progress'', ''done'', ''pending'', ''blocked''] \<Longrightarrow> hasDefault c initialKanbanState"
  by (auto simp: hasDefault_def initialKanbanState_def)

text \<open>
  C9.  After every run of column events from the initial board (typing a title, adding,
  renaming and deleting columns) each of the five default ids todo, in-progress,
  pending, blocked and done still names a column of the board, with its status, and
  \<open>handleDeleteColumn\<close> called with such an id returns the board unchanged.
\<close>

theorem default_columns_always_present:
  "\<forall>c \<in> set [''todo'', ''in-progress'', ''pending'', ''blocked'', ''done''].
      (\<exists>col \<in> set (customColumns (column_run evs)). col_id col = c \<and> col_status col = c)
      \<and> handleDeleteColumn c kb = kb"
proof
  fix c assume c: "c \<in> set [''todo'', ''in-progress'', ''pending'', ''blocked'', ''done'']"
  then have c': "c \<in> set [''todo'', ''in-progress'', ''done'', ''pending'', ''blocked'']" by auto
  have "hasDefault c (column_run evs)"
    unfolding column_run_def by (rule hasDefault_run [OF c' hasDefault_initial [OF c']])
  moreover have "handleDeleteColumn c kb = kb"
    using c' by (simp add: handleDeleteColumn_def)
  ultimately show "(\<exists>col \<in> set (customColumns (column_run evs)). col_id col = c \<and> col_status col = c)
      \<and> handleDeleteColumn c kb = kb"
    by (simp add: hasDefault_def)
qed

theorem default_columns_always_present_witness:
  "''done'' \<in> set [''todo'', ''in-progress'', ''pending'', ''blocked'', ''done'']
   \<and> (\<exists>col \<in> set (customColumns (column_run
          [TypeColumnTitle ''QA'', AddColumn 1700 1701, DeleteColumn ''done'',
           EditColumn ''done'' ''Finished'', DeleteColumn ''custom-1700''])).
         col_id col = ''done'' \<and> col_status col = ''done'')
   \<and> map col_id (customColumns (column_run
          [TypeColumnTitle ''QA'', AddColumn 1700 1701, DeleteColumn ''done'',
           EditColumn ''done'' ''Finished'', DeleteColumn ''custom-1700'']))
       = [''todo'', ''in-progress'', ''done'', ''pending'', ''blocked'']
   \<and> handleDeleteColumn ''done'' initialKanbanState = initialKanbanState"
proof -
  have m: "''done'' \<in> set [''todo'', ''in-progress'', ''pending'', ''blocked'', ''done'']" by simp
  have "map col_id (customColumns (column_run
          [TypeColumnTitle ''QA'', AddColumn 1700 1701, DeleteColumn ''done'',
           EditColumn ''done'' ''Finished'', DeleteColumn ''custom-1700'']))
       = [''todo'', ''in-progress'', ''done'', ''pending'', ''blocked'']"
    by (simp add: column_run_def initialKanbanState_def handleAddColumn_def handleDeleteColumn_def
          handleEditColumn_def trim_def isWhiteSpace_def decimal_def string_of_nat.simps digit_def)
  with m default_columns_always_present
         [of "[TypeColumnTitle ''QA'', AddColumn 1700 1701, DeleteColumn ''done'',
               EditColumn ''done'' ''Finished'', DeleteColumn ''custom-1700'']" initialKanbanState]
  show ?thesis by blast
qed

end
